theory Spec2Isabelle
  imports
    Complex_Main
    "HOL-Library.Product_Lexorder"
    "HOL-Library.AList"
    "HOL-Library.Char_ord"
    "HOL-Library.List_Lexorder"
begin

section \<open>Columns with missing values\<close>

text \<open>
  A float column of a DataFrame is a list of optional numbers: \<open>None\<close> is the missing
  value (NaN, None, NaT). Arithmetic on the numbers is exact (\<open>real\<close>); rounding of the
  machine's floating point numbers is outside this development.
\<close>

type_synonym series = "real option list"

fun dropna :: "'a option list \<Rightarrow> 'a list" where
  "dropna [] = []"
| "dropna (None # s) = dropna s"
| "dropna (Some x # s) = x # dropna s"

definition mean :: "real list \<Rightarrow> real" where
  "mean xs = sum_list xs / real (length xs)"

text \<open>\<open>s.shift(1)\<close>: every value moves one row down, the first row becomes missing.\<close>

definition shift1 :: "'a option list \<Rightarrow> 'a option list" where
  "shift1 s = take (length s) (None # s)"

text \<open>\<open>s.fillna(v)\<close>.\<close>

definition fillna :: "'a \<Rightarrow> 'a option list \<Rightarrow> 'a option list" where
  "fillna v s = map (\<lambda>x. case x of None \<Rightarrow> Some v | Some y \<Rightarrow> Some y) s"

text \<open>
  \<open>s.rolling(window, min_periods).agg()\<close>: at row \<open>k\<close> the window holds the rows
  \<open>k - window + 1 .. k\<close> that exist; the aggregate is taken over the values of the window
  that are not missing, and it is missing itself when fewer than \<open>min_periods\<close> of them
  are there. \<open>s.expanding()\<close> is the window that starts at the first row, with
  \<open>min_periods = 1\<close>.
\<close>

definition rolling :: "nat \<Rightarrow> nat \<Rightarrow> (real list \<Rightarrow> real) \<Rightarrow> series \<Rightarrow> series" where
  "rolling window min_periods agg s =
     map (\<lambda>k. let obs = dropna (drop (Suc k - window) (take (Suc k) s))
               in if min_periods \<le> length obs then Some (agg obs) else None)
         [0..<length s]"

definition expanding :: "(real list \<Rightarrow> real) \<Rightarrow> series \<Rightarrow> series" where
  "expanding agg s =
     map (\<lambda>k. let obs = dropna (take (Suc k) s)
               in if 1 \<le> length obs then Some (agg obs) else None)
         [0..<length s]"

text \<open>\<open>s.unique()\<close>: the distinct values in the order of their first appearance.\<close>

definition unique :: "'a list \<Rightarrow> 'a list" where
  "unique xs = rev (remdups (rev xs))"

text \<open>
  A series carries its index: \<open>zip idx col\<close>. An assignment of a series to rows of a frame
  aligns on the index label; a label the series does not have reads as missing.
\<close>

definition at_label :: "nat list \<Rightarrow> 'a option list \<Rightarrow> nat \<Rightarrow> 'a option" where
  "at_label idx col i = (case map_of (zip idx col) i of None \<Rightarrow> None | Some v \<Rightarrow> v)"

text \<open>Subtraction of two float cells: missing when either side is.\<close>

definition sub_cell :: "real option \<Rightarrow> real option \<Rightarrow> real option" where
  "sub_cell a b = (case (a, b) of (Some x, Some y) \<Rightarrow> Some (x - y) | _ \<Rightarrow> None)"

section \<open>The merged game table\<close>

text \<open>
  One row per game. \<open>game_datetime\<close> is an instant in nanoseconds since the epoch. The
  scores are optional: a game that has not been played has none. The season and team
  columns are of any type (strings in the data); the date, the season and the two teams
  of a row are never missing. The table has further columns, which the
  functions below pass on; each function is modelled on the columns it reads and the
  columns it adds. The index labels of a table are distinct, as they are after a merge:
  the position of a row in the list is its label.
\<close>

record ('s, 't) game =
  game_datetime :: int
  season :: 's
  home_team :: 't
  away_team :: 't
  home_score :: "int option"
  away_score :: "int option"

text \<open>A comparison with a missing score is false; a difference with one is missing.\<close>

definition score_gt :: "int option \<Rightarrow> int option \<Rightarrow> bool" where
  "score_gt a b = (case (a, b) of (Some x, Some y) \<Rightarrow> y < x | _ \<Rightarrow> False)"

definition score_sub :: "int option \<Rightarrow> int option \<Rightarrow> real option" where
  "score_sub a b = (case (a, b) of (Some x, Some y) \<Rightarrow> Some (real_of_int (x - y)) | _ \<Rightarrow> None)"

section \<open>Team performance metrics\<close>

text \<open>The columns of \<open>team_df\<close>, the games of one team in one season, for that team.\<close>

definition is_win :: "'t \<Rightarrow> ('s, 't) game \<Rightarrow> bool" where
  "is_win team g \<longleftrightarrow>
     (home_team g = team \<and> score_gt (home_score g) (away_score g)) \<or>
     (away_team g = team \<and> score_gt (away_score g) (home_score g))"

definition performance :: "'t \<Rightarrow> ('s, 't) game \<Rightarrow> int" where
  "performance team g = (if is_win team g then 1 else - 1)"

definition point_diff :: "'t \<Rightarrow> ('s, 't) game \<Rightarrow> real option" where
  "point_diff team g =
     (if home_team g = team then score_sub (home_score g) (away_score g)
      else score_sub (away_score g) (home_score g))"

definition float_col :: "int list \<Rightarrow> series" where
  "float_col xs = map (\<lambda>x. Some (real_of_int x)) xs"

definition col_last_5_games_result :: "int list \<Rightarrow> series" where
  "col_last_5_games_result perf = fillna 0 (shift1 (rolling 5 1 sum_list (float_col perf)))"

text \<open>
  The loop over the rows of \<open>team_df\<close>: \<open>streaks\<close> is the list built so far,
  \<open>current_streak\<close> the loop variable.
\<close>

fun streak_loop :: "int \<Rightarrow> int list \<Rightarrow> int list \<Rightarrow> int list" where
  "streak_loop current_streak streaks [] = streaks"
| "streak_loop current_streak streaks (p # rows) =
     streak_loop
       (if current_streak = 0 then p
        else if sgn current_streak = sgn p then current_streak + p
        else p)
       (streaks @ [current_streak]) rows"

definition col_streak :: "int list \<Rightarrow> series" where
  "col_streak perf = float_col (streak_loop 0 [] perf)"

definition col_win_pct :: "int list \<Rightarrow> series" where
  "col_win_pct perf = shift1 (expanding mean (float_col perf))"

definition col_avg_point_diff :: "series \<Rightarrow> series" where
  "col_avg_point_diff pd = fillna 0 (shift1 (expanding mean pd))"

definition col_avg_point_diff_last_5 :: "series \<Rightarrow> series" where
  "col_avg_point_diff_last_5 pd = fillna 0 (shift1 (rolling 5 5 mean pd))"

text \<open>
  The metric columns of one side of the output: \<open>home_team_<name>\<close> or
  \<open>away_team_<name>\<close>. The column \<open>last_5\<close> is created with the others and never
  assigned.
\<close>

record metrics =
  last_5 :: "real option"
  last_5_games_result :: "real option"
  streak :: "real option"
  win_pct :: "real option"
  avg_point_diff :: "real option"
  avg_point_diff_last_5 :: "real option"

definition nan_metrics :: metrics where
  "nan_metrics = \<lparr>last_5 = None, last_5_games_result = None, streak = None,
     win_pct = None, avg_point_diff = None, avg_point_diff_last_5 = None\<rparr>"

record ('s, 't) feature_row =
  game :: "('s, 't) game"
  home_team_metrics :: metrics
  away_team_metrics :: metrics
  last_5_hv :: "real option"
  streak_hv :: "real option"
  win_pct_hv :: "real option"
  point_diff_hv :: "real option"
  point_diff_last_5_hv :: "real option"

text \<open>
  The body of the loop over the teams of a season. \<open>df\<close> is the sorted table, of which
  the loop reads the game columns only; the state is the pair of metric column groups,
  row by row. The index of \<open>season_df\<close> is \<open>season_rows\<close>, that of \<open>team_df\<close> is
  \<open>team_rows\<close>. The update writes the five columns of \<open>team_df\<close> to the home columns of
  the rows where the team is at home, and to the away columns where it is away.
\<close>

definition season_rows :: "('s, 't) game list \<Rightarrow> 's \<Rightarrow> nat list" where
  "season_rows df s = filter (\<lambda>i. season (df ! i) = s) [0..<length df]"

definition team_rows :: "('s, 't) game list \<Rightarrow> 's \<Rightarrow> 't \<Rightarrow> nat list" where
  "team_rows df s team =
     filter (\<lambda>i. home_team (df ! i) = team \<or> away_team (df ! i) = team) (season_rows df s)"

definition season_teams :: "('s, 't) game list \<Rightarrow> 's \<Rightarrow> 't list" where
  "season_teams df s =
     unique (map (\<lambda>i. home_team (df ! i)) (season_rows df s) @
             map (\<lambda>i. away_team (df ! i)) (season_rows df s))"

definition update_team ::
  "('s, 't) game list \<Rightarrow> 's \<Rightarrow> 't \<Rightarrow> (metrics \<times> metrics) list \<Rightarrow> (metrics \<times> metrics) list" where
  "update_team df s team st =
     (let idx = team_rows df s team;
          team_df = map (\<lambda>i. df ! i) idx;
          perf = map (performance team) team_df;
          pd = map (point_diff team) team_df;
          upd = (\<lambda>i m. m\<lparr>last_5_games_result := at_label idx (col_last_5_games_result perf) i,
                          streak := at_label idx (col_streak perf) i,
                          win_pct := at_label idx (col_win_pct perf) i,
                          avg_point_diff := at_label idx (col_avg_point_diff pd) i,
                          avg_point_diff_last_5 := at_label idx (col_avg_point_diff_last_5 pd) i\<rparr>)
      in map (\<lambda>(i, (h, a)).
               (if i \<in> set idx \<and> home_team (df ! i) = team then upd i h else h,
                if i \<in> set idx \<and> away_team (df ! i) = team then upd i a else a))
             (zip [0..<length st] st))"

text \<open>\<open>df.sort_values(["season", "game_datetime"])\<close>: a stable sort on the pair of keys.\<close>

definition sort_games :: "('s::linorder, 't) game list \<Rightarrow> ('s, 't) game list" where
  "sort_games df = sort_key (\<lambda>g. (season g, game_datetime g)) df"

text \<open>
  The function on a table with at least one row. The first update of the loop creates
  the ten result columns, and the home-view differences read them; on a table with no
  row the loop body never runs and the source raises \<open>KeyError\<close> at the first
  difference, where the definition below has the empty list.
\<close>

definition calculate_team_performance_metrics ::
  "('s::linorder, 't) game list \<Rightarrow> ('s, 't) feature_row list" where
  "calculate_team_performance_metrics df0 =
     (let df = sort_games df0;
          st = fold (\<lambda>s. fold (update_team df s) (season_teams df s))
                 (unique (map season df))
                 (replicate (length df) (nan_metrics, nan_metrics))
      in map (\<lambda>(g, (h, a)).
               \<lparr>game = g, home_team_metrics = h, away_team_metrics = a,
                last_5_hv = sub_cell (last_5_games_result h) (last_5_games_result a),
                streak_hv = sub_cell (streak h) (streak a),
                win_pct_hv = sub_cell (win_pct h) (win_pct a),
                point_diff_hv = sub_cell (avg_point_diff h) (avg_point_diff a),
                point_diff_last_5_hv =
                  sub_cell (avg_point_diff_last_5 h) (avg_point_diff_last_5 a)\<rparr>)
             (zip df st))"

section \<open>The metrics as functions of the earlier games\<close>

text \<open>
  The streak machine of the specification: a signed counter that starts at 0; a game of
  performance \<open>p\<close> moves it to \<open>p\<close> when it is 0 or of the other sign, and adds \<open>p\<close> when
  it has the sign of \<open>p\<close>. The state carried into game \<open>i\<close> is the state after the
  first \<open>i\<close> games.
\<close>

definition streak_step :: "int \<Rightarrow> int \<Rightarrow> int" where
  "streak_step S p = (if S = 0 then p else if sgn S = sgn p then S + p else p)"

definition streak_entering :: "int list \<Rightarrow> int" where
  "streak_entering prior = foldl streak_step 0 prior"

text \<open>
  The games a team has played before row \<open>i\<close> of the sorted table, in the season of that
  row, and the metrics with which a team enters a game, written as functions of the list
  of these games: the sum of the last five performances or fewer, the state of the streak
  machine, the mean performance, the mean point difference of the games that have one,
  and the mean point difference of the last five games when all five have one.
\<close>

definition last_n :: "nat \<Rightarrow> 'a list \<Rightarrow> 'a list" where
  "last_n n xs = drop (length xs - n) xs"

definition plays :: "'t \<Rightarrow> ('s, 't) game \<Rightarrow> bool" where
  "plays team g \<longleftrightarrow> home_team g = team \<or> away_team g = team"

definition prior_games :: "('s, 't) game list \<Rightarrow> nat \<Rightarrow> 't \<Rightarrow> ('s, 't) game list" where
  "prior_games df i team =
     filter (\<lambda>g. season g = season (df ! i) \<and> plays team g) (take i df)"

definition entering_metrics :: "'t \<Rightarrow> ('s, 't) game list \<Rightarrow> metrics" where
  "entering_metrics team prior =
     (let perf = map (performance team) prior;
          pd = map (point_diff team) prior
      in \<lparr>last_5 = None,
          last_5_games_result = Some (real_of_int (sum_list (last_n 5 perf))),
          streak = Some (real_of_int (streak_entering perf)),
          win_pct = (if prior = [] then None else Some (mean (map real_of_int perf))),
          avg_point_diff = Some (if dropna pd = [] then 0 else mean (dropna pd)),
          avg_point_diff_last_5 =
            Some (if 5 \<le> length (dropna (last_n 5 pd)) then mean (dropna (last_n 5 pd)) else 0)\<rparr>)"

text \<open>
  For the proof of the loop: the effect of one update on a group of metric columns, and
  the state after the updates for a set \<open>D\<close> of pairs of a season and a team.
\<close>

definition write_metrics :: "metrics \<Rightarrow> metrics \<Rightarrow> metrics" where
  "write_metrics e m = m\<lparr>last_5_games_result := last_5_games_result e, streak := streak e,
     win_pct := win_pct e, avg_point_diff := avg_point_diff e,
     avg_point_diff_last_5 := avg_point_diff_last_5 e\<rparr>"

definition rollup_inv ::
  "('s, 't) game list \<Rightarrow> ('s \<times> 't) set \<Rightarrow> (metrics \<times> metrics) list \<Rightarrow> bool" where
  "rollup_inv df D st \<longleftrightarrow>
     length st = length df \<and>
     (\<forall>i<length df.
        fst (st ! i) =
          (if (season (df ! i), home_team (df ! i)) \<in> D
           then entering_metrics (home_team (df ! i)) (prior_games df i (home_team (df ! i)))
           else nan_metrics) \<and>
        snd (st ! i) =
          (if (season (df ! i), away_team (df ! i)) \<in> D
           then entering_metrics (away_team (df ! i)) (prior_games df i (away_team (df ! i)))
           else nan_metrics))"

text \<open>
  Tables for the examples: five games between two teams in one season and a game of
  another season, in no order; the five games in order; and a drawn game.
\<close>

definition example_season :: "(nat, string) game list" where
  "example_season =
     [\<lparr>game_datetime = 30, season = 2023, home_team = ''BOS'', away_team = ''NYK'',
        home_score = Some 101, away_score = Some 99\<rparr>,
      \<lparr>game_datetime = 10, season = 2023, home_team = ''BOS'', away_team = ''NYK'',
        home_score = Some 100, away_score = Some 90\<rparr>,
      \<lparr>game_datetime = 50, season = 2023, home_team = ''BOS'', away_team = ''NYK'',
        home_score = None, away_score = None\<rparr>,
      \<lparr>game_datetime = 20, season = 2023, home_team = ''NYK'', away_team = ''BOS'',
        home_score = Some 95, away_score = Some 96\<rparr>,
      \<lparr>game_datetime = 40, season = 2023, home_team = ''NYK'', away_team = ''BOS'',
        home_score = Some 110, away_score = Some 80\<rparr>,
      \<lparr>game_datetime = 45, season = 2022, home_team = ''NYK'', away_team = ''BOS'',
        home_score = Some 88, away_score = Some 70\<rparr>]"

definition example_team_df :: "(nat, string) game list" where
  "example_team_df =
     [\<lparr>game_datetime = 10, season = 2023, home_team = ''BOS'', away_team = ''NYK'',
        home_score = Some 100, away_score = Some 90\<rparr>,
      \<lparr>game_datetime = 20, season = 2023, home_team = ''NYK'', away_team = ''BOS'',
        home_score = Some 95, away_score = Some 96\<rparr>,
      \<lparr>game_datetime = 30, season = 2023, home_team = ''BOS'', away_team = ''NYK'',
        home_score = Some 101, away_score = Some 99\<rparr>,
      \<lparr>game_datetime = 40, season = 2023, home_team = ''NYK'', away_team = ''BOS'',
        home_score = Some 110, away_score = Some 80\<rparr>,
      \<lparr>game_datetime = 50, season = 2023, home_team = ''BOS'', away_team = ''NYK'',
        home_score = None, away_score = None\<rparr>]"

definition example_draw :: "(nat, string) game" where
  "example_draw = \<lparr>game_datetime = 60, season = 2023, home_team = ''BOS'', away_team = ''NYK'',
     home_score = Some 100, away_score = Some 100\<rparr>"

section \<open>The condensed win probability\<close>

text \<open>
  The columns of the merged table that \<open>_condense_538_features\<close> reads. The function
  adds the column \<open>538_prob1\<close>, here the second component of each output row.
\<close>

record ratings =
  raptor_prob1 :: "real option"
  carm_elo_prob1 :: "real option"
  elo_prob1 :: "real option"

definition notna :: "'a option \<Rightarrow> bool" where
  "notna v \<longleftrightarrow> v \<noteq> None"

definition prob1_538 :: "ratings \<Rightarrow> real option" where
  "prob1_538 row =
     (if notna (raptor_prob1 row) then raptor_prob1 row
      else (if notna (carm_elo_prob1 row) then carm_elo_prob1 row else elo_prob1 row))"

definition condense_538_features :: "ratings list \<Rightarrow> (ratings \<times> real option) list" where
  "condense_538_features df = map (\<lambda>row. (row, prob1_538 row)) df"

text \<open>The first value of a priority list that is not missing, if there is one.\<close>

definition first_notna :: "'a option list \<Rightarrow> 'a option" where
  "first_notna vs = (case dropna vs of [] \<Rightarrow> None | x # _ \<Rightarrow> Some x)"

definition example_ratings :: ratings where
  "example_ratings = \<lparr>raptor_prob1 = None, carm_elo_prob1 = Some 0.62, elo_prob1 = Some 0.55\<rparr>"

section \<open>Day of season\<close>

text \<open>
  Python exceptions as values. \<open>OtherError\<close> stands for any exception that is not one of
  the first three.
\<close>

datatype py_error = KeyError string | ValueError string | AttributeError string | OtherError string

text \<open>
  The season calendar is not part of this module: \<open>find_season_information\<close> takes a
  date string and returns a dictionary of strings, or raises. With it come the two
  library functions between instants and \<open>%Y-%m-%d\<close> strings; \<open>strptime\<close> returns the
  midnight that starts the day, or raises on a string of another form.
\<close>

record calendar =
  strftime :: "int \<Rightarrow> string"
  find_season_information :: "string \<Rightarrow> py_error + (string \<rightharpoonup> string)"
  strptime :: "string \<Rightarrow> py_error + int"

definition ns_per_day :: int where
  "ns_per_day = 86400000000000"

text \<open>
  The body of the \<open>try\<close>. \<open>(x - start_date).days\<close> is the number of whole days in the
  difference, rounded down.
\<close>

definition day_of_season_try :: "calendar \<Rightarrow> int \<Rightarrow> py_error + int" where
  "day_of_season_try cal x =
     (case find_season_information cal (strftime cal x) of
        Inl e \<Rightarrow> Inl e
      | Inr info \<Rightarrow>
          (case info ''reg_season_start_date'' of
             None \<Rightarrow> Inl (KeyError ''reg_season_start_date'')
           | Some s \<Rightarrow>
               (case strptime cal s of
                  Inl e \<Rightarrow> Inl e
                | Inr start_date \<Rightarrow> Inr ((x - start_date) div ns_per_day))))"

text \<open>The bare \<open>except\<close> turns every exception into \<open>None\<close>.\<close>

definition calculate_day_of_season :: "calendar \<Rightarrow> int \<Rightarrow> int option" where
  "calculate_day_of_season cal x =
     (case day_of_season_try cal x of Inl e \<Rightarrow> None | Inr d \<Rightarrow> Some d)"

definition add_day_of_season ::
  "calendar \<Rightarrow> ('s, 't) game list \<Rightarrow> (('s, 't) game \<times> int option) list" where
  "add_day_of_season cal df = map (\<lambda>g. (g, calculate_day_of_season cal (game_datetime g))) df"

text \<open>
  A calendar for the examples: instants are whole days, a date string is looked up in a
  table of two seasons, and the second season has no start date.
\<close>

definition example_calendar :: calendar where
  "example_calendar =
     \<lparr>strftime = (\<lambda>x. if x div ns_per_day < 19600 then ''2023-01-01'' else ''2024-01-01''),
      find_season_information =
        (\<lambda>d. if d = ''2023-01-01'' then Inr [''reg_season_start_date'' \<mapsto> ''2022-10-18'']
              else if d = ''2024-01-01'' then Inr Map.empty
              else Inl (OtherError ''unknown date'')),
      strptime = (\<lambda>s. if s = ''2022-10-18'' then Inr (19283 * ns_per_day)
                       else Inl (ValueError s))\<rparr>"

definition example_dates :: "(nat, string) game list" where
  "example_dates =
     [\<lparr>game_datetime = 19358 * ns_per_day + 70200000000000, season = 2022,
        home_team = ''BOS'', away_team = ''NYK'', home_score = None, away_score = None\<rparr>,
      \<lparr>game_datetime = 19723 * ns_per_day, season = 2023,
        home_team = ''NYK'', away_team = ''BOS'', home_score = None, away_score = None\<rparr>]"

section \<open>Cross-sectional normalisation\<close>

text \<open>
  \<open>s.mean()\<close> and \<open>s.std(ddof)\<close> skip the missing values. The mean of no value is
  missing, and so is the standard deviation of \<open>ddof\<close> values or fewer.
\<close>

definition series_mean :: "series \<Rightarrow> real option" where
  "series_mean s = (if dropna s = [] then None else Some (mean (dropna s)))"

definition series_std :: "nat \<Rightarrow> series \<Rightarrow> real option" where
  "series_std ddof s =
     (let xs = dropna s
      in if length xs \<le> ddof then None
         else Some (sqrt (sum_list (map (\<lambda>x. (x - mean xs)\<^sup>2) xs) / real (length xs - ddof))))"

text \<open>
  \<open>safe_zscore\<close>. The comparison \<open>std == 0\<close> is false for a missing \<open>std\<close>; the division
  is then on missing values and gives missing values. In the last branch \<open>std\<close> is not 0.
\<close>

definition safe_zscore :: "series \<Rightarrow> series" where
  "safe_zscore s =
     (let m = series_mean s; std = series_std 1 s
      in if std = Some 0 then replicate (length s) None
         else map (\<lambda>v. case (v, m, std) of
                          (Some x, Some a, Some sd) \<Rightarrow> Some ((x - a) / sd)
                        | _ \<Rightarrow> None) s)"

text \<open>
  \<open>safe_percentile\<close> is \<open>s.rank(pct=True)\<close>: the rank of a value among the values that
  are not missing, ties sharing the average of their ranks, divided by the number of
  these values. A missing value has no rank.
\<close>

definition safe_percentile :: "series \<Rightarrow> series" where
  "safe_percentile s =
     (let xs = dropna s
      in map (\<lambda>v. case v of
                     None \<Rightarrow> None
                   | Some x \<Rightarrow>
                       Some ((real (length (filter (\<lambda>y. y < x) xs)) +
                              (real (length (filter (\<lambda>y. y = x) xs)) + 1) / 2) /
                             real (length xs))) s)"

text \<open>
  \<open>df.groupby(date_col)[col].transform(f)\<close>: \<open>f\<close> is applied to the values of each group
  of rows with the same key, and each row receives the value \<open>f\<close> returns under its
  label. A row with a missing key is in no group and receives a missing value.
\<close>

definition groupby_transform :: "'k option list \<Rightarrow> (series \<Rightarrow> series) \<Rightarrow> series \<Rightarrow> series" where
  "groupby_transform keys f col =
     (let rows = zip keys col
      in map (\<lambda>i. case fst (rows ! i) of
                     None \<Rightarrow> None
                   | Some k \<Rightarrow>
                       (let idx = filter (\<lambda>j. fst (rows ! j) = Some k) [0..<length rows]
                        in at_label idx (f (map (\<lambda>j. snd (rows ! j)) idx)) i))
             [0..<length rows])"

text \<open>\<open>s.where(cond)\<close>.\<close>

definition series_where :: "series \<Rightarrow> bool list \<Rightarrow> series" where
  "series_where s cond = map (\<lambda>(v, c). if c then v else None) (zip s cond)"

definition zscore_column :: "'k option list \<Rightarrow> series \<Rightarrow> series" where
  "zscore_column keys col =
     series_where (groupby_transform keys safe_zscore col) (map notna col)"

definition percentile_column :: "'k option list \<Rightarrow> series \<Rightarrow> series" where
  "percentile_column keys col =
     series_where (groupby_transform keys safe_percentile col) (map notna col)"

text \<open>
  A feature table is a map from column names to columns; the date column holds the dates
  as numbers. Reading a column the table does not have raises \<open>KeyError\<close>. The two
  statements of the loop body run one after the other, each on the table as it is then.
\<close>

type_synonym table = "string \<rightharpoonup> series"

definition add_zscore :: "table \<Rightarrow> string \<Rightarrow> string \<Rightarrow> py_error + table" where
  "add_zscore df col date_col =
     (case df date_col of
        None \<Rightarrow> Inl (KeyError date_col)
      | Some keys \<Rightarrow>
          (case df col of
             None \<Rightarrow> Inl (KeyError col)
           | Some vals \<Rightarrow> Inr (df(col @ ''_zscore'' \<mapsto> zscore_column keys vals))))"

definition add_percentile :: "table \<Rightarrow> string \<Rightarrow> string \<Rightarrow> py_error + table" where
  "add_percentile df col date_col =
     (case df date_col of
        None \<Rightarrow> Inl (KeyError date_col)
      | Some keys \<Rightarrow>
          (case df col of
             None \<Rightarrow> Inl (KeyError col)
           | Some vals \<Rightarrow> Inr (df(col @ ''_percentile'' \<mapsto> percentile_column keys vals))))"

fun zscore_and_percentiles :: "table \<Rightarrow> string list \<Rightarrow> string \<Rightarrow> py_error + table" where
  "zscore_and_percentiles df [] date_col = Inr df"
| "zscore_and_percentiles df (col # all_feature_cols) date_col =
     (case add_zscore df col date_col of
        Inl e \<Rightarrow> Inl e
      | Inr df1 \<Rightarrow>
          (case add_percentile df1 col date_col of
             Inl e \<Rightarrow> Inl e
           | Inr df2 \<Rightarrow> zscore_and_percentiles df2 all_feature_cols date_col))"

section \<open>The dispatcher before the merge\<close>

text \<open>
  \<open>FEATURE_TABLE_INFO\<close> is defined outside this module: a dictionary from table names to
  the feature columns and the date column of the table. It is a parameter here.
\<close>

record table_info =
  feature_columns :: "string list"
  date_column :: string

type_synonym config = "string \<rightharpoonup> table_info"

text \<open>The four methods for the nbastats tables have one body, up to the table name.\<close>

definition create_features_nbastats :: "config \<Rightarrow> string \<Rightarrow> table \<Rightarrow> py_error + table" where
  "create_features_nbastats cfg name df =
     (case cfg name of
        None \<Rightarrow> Inl (KeyError name)
      | Some table_info \<Rightarrow>
          zscore_and_percentiles df (feature_columns table_info) (date_column table_info))"

text \<open>
  \<open>getattr(self, "_create_features_" + table_name)\<close>: the class has five attributes of
  such a name, and \<open>getattr\<close> raises \<open>AttributeError\<close> for any other.
\<close>

definition getattr_create_features ::
  "config \<Rightarrow> string \<Rightarrow> py_error + (table \<Rightarrow> py_error + table)" where
  "getattr_create_features cfg table_name =
     (if table_name = ''team_fivethirtyeight_games'' then Inr (\<lambda>df. Inr df)
      else if table_name \<in> {''team_nbastats_general_traditional'',
             ''team_nbastats_general_advanced'', ''team_nbastats_general_fourfactors'',
             ''team_nbastats_general_opponent''}
      then Inr (create_features_nbastats cfg table_name)
      else Inl (AttributeError (''_create_features_'' @ table_name)))"

text \<open>
  The dictionary of tables is a list of pairs, in the order of iteration. The loop state
  is \<open>updated_features_tables\<close> together with the lines printed so far. An exception
  of a method is not caught: the method is called in the \<open>else\<close> branch of the \<open>try\<close>.
  Tables are values here: no DataFrame object is stored under two names, so that the
  columns a method adds to its table in place are seen under that name only.
\<close>

definition notice :: "string \<Rightarrow> string" where
  "notice table_name = ''No feature creation method for table: '' @ table_name"

fun feature_creation_loop ::
  "config \<Rightarrow> (string \<times> table) list \<Rightarrow> string list \<Rightarrow>
   (string \<times> table) list \<times> string list \<Rightarrow> py_error + ((string \<times> table) list \<times> string list)" where
  "feature_creation_loop cfg features_tables [] st = Inr st"
| "feature_creation_loop cfg features_tables (table_name # names) (updated, printed) =
     (case getattr_create_features cfg table_name of
        Inl (AttributeError a) \<Rightarrow>
          feature_creation_loop cfg features_tables names
            (updated, printed @ [notice table_name])
      | Inl e \<Rightarrow> Inl e
      | Inr meth \<Rightarrow>
          (case map_of features_tables table_name of
             None \<Rightarrow> Inl (KeyError table_name)
           | Some df \<Rightarrow>
               (case meth df of
                  Inl e \<Rightarrow> Inl e
                | Inr df' \<Rightarrow>
                    feature_creation_loop cfg features_tables names
                      (AList.update table_name df' updated, printed))))"

definition full_feature_creation ::
  "config \<Rightarrow> (string \<times> table) list \<Rightarrow> py_error + ((string \<times> table) list \<times> string list)" where
  "full_feature_creation cfg features_tables =
     feature_creation_loop cfg features_tables (map fst features_tables) (features_tables, [])"

text \<open>A configuration and tables for the examples.\<close>

definition example_config :: config where
  "example_config =
     [''team_nbastats_general_traditional'' \<mapsto>
        \<lparr>feature_columns = [''pts''], date_column = ''to_date''\<rparr>]"

definition example_traditional :: table where
  "example_traditional =
     [''to_date'' \<mapsto> [Some 1, Some 1, Some 2], ''pts'' \<mapsto> [Some 3, Some 3, Some 5]]"

definition example_roster :: table where
  "example_roster = [''height'' \<mapsto> [Some 201, None]]"

definition example_tables :: "(string \<times> table) list" where
  "example_tables =
     [(''team_nbastats_general_traditional'', example_traditional),
      (''roster'', example_roster),
      (''team_fivethirtyeight_games'', example_roster)]"

text \<open>
  What the method registered for a name returns on the input table of that name, when
  there is such a method and it returns.
\<close>

definition method_result :: "config \<Rightarrow> (string \<times> table) list \<Rightarrow> string \<Rightarrow> table option" where
  "method_result cfg ft n =
     (case getattr_create_features cfg n of
        Inl e \<Rightarrow> None
      | Inr meth \<Rightarrow>
          (case map_of ft n of
             None \<Rightarrow> None
           | Some df \<Rightarrow> (case meth df of Inl e \<Rightarrow> None | Inr df' \<Rightarrow> Some df')))"

section \<open>Days since the last game\<close>

text \<open>
  A row of \<open>home_df\<close>, \<open>away_df\<close> and \<open>all_games_df\<close>: the columns \<open>game_datetime\<close>,
  \<open>season\<close> and \<open>team\<close>, the last one renamed from \<open>home_team\<close> or \<open>away_team\<close>.
\<close>

record ('s, 't) appearance =
  app_datetime :: int
  app_season :: 's
  app_team :: 't

definition home_df :: "('s, 't) game list \<Rightarrow> ('s, 't) appearance list" where
  "home_df df =
     map (\<lambda>g. \<lparr>app_datetime = game_datetime g, app_season = season g, app_team = home_team g\<rparr>) df"

definition away_df :: "('s, 't) game list \<Rightarrow> ('s, 't) appearance list" where
  "away_df df =
     map (\<lambda>g. \<lparr>app_datetime = game_datetime g, app_season = season g, app_team = away_team g\<rparr>) df"


















section \<open>The columns of a team, row by row\<close>

text \<open>
  The list of streaks that the loop builds holds, at each position, the state of the
  machine after the games before that position.
\<close>

lemma streak_fold_shift:
  "map (\<lambda>k. foldl streak_step S (take k (p # ps))) [0..<Suc (length ps)] =
      S # map (\<lambda>k. foldl streak_step (streak_step S p) (take k ps)) [0..<length ps]"
  by (simp only: map_upt_Suc) simp

lemma streak_loop_append:
  "streak_loop S acc (ps @ qs) = streak_loop (foldl streak_step S ps) (acc @ map (\<lambda>k. foldl streak_step S (take k ps)) [0..<length ps]) qs"
proof (induction ps arbitrary: S acc)
  case Nil
  then show ?case by simp
next
  case (Cons p ps)
  have "streak_loop S acc ((p # ps) @ qs) = streak_loop (streak_step S p) (acc @ [S]) (ps @ qs)"
    by (simp add: streak_step_def)
  also have "\<dots> = streak_loop (foldl streak_step (streak_step S p) ps)
      ((acc @ [S]) @ map (\<lambda>k. foldl streak_step (streak_step S p) (take k ps)) [0..<length ps]) qs"
    by (rule Cons.IH)
  finally show ?case
    by (simp only: length_Cons streak_fold_shift) simp
qed

lemma streak_loop_eq:
  "streak_loop 0 [] perf = map (\<lambda>k. streak_entering (take k perf)) [0..<length perf]"
  using streak_loop_append [of 0 "[]" perf "[]"]
  by (simp add: streak_entering_def)

text \<open>
  Each of the other four columns at row \<open>k\<close> as a function of the first \<open>k\<close> rows of its
  input column.
\<close>

lemma dropna_float_col: "dropna (float_col xs) = map real_of_int xs"
  by (induction xs) (simp_all add: float_col_def)

lemma sum_list_real_of_int: "sum_list (map real_of_int xs) = real_of_int (sum_list xs)"
  by (induction xs) simp_all

lemma length_shift1: "length (shift1 s) = length s"
  by (simp add: shift1_def)

lemma nth_shift1: "k < length s \<Longrightarrow> shift1 s ! k = (if k = 0 then None else s ! (k - 1))"
  by (cases k) (simp_all add: shift1_def)

lemma length_fillna: "length (fillna v s) = length s"
  by (simp add: fillna_def)

lemma length_rolling: "length (rolling w mp agg s) = length s"
  by (simp add: rolling_def)

lemma length_expanding: "length (expanding agg s) = length s"
  by (simp add: expanding_def)

lemma length_float_col: "length (float_col xs) = length xs"
  by (simp add: float_col_def)

lemma take_float_col: "take k (float_col xs) = float_col (take k xs)"
  by (simp add: float_col_def take_map)

lemma drop_float_col: "drop k (float_col xs) = float_col (drop k xs)"
  by (simp add: float_col_def drop_map)

lemma nth_col_last_5_games_result:
  assumes "k < length perf"
  shows "col_last_5_games_result perf ! k = Some (real_of_int (sum_list (last_n 5 (take k perf))))"
proof (cases k)
  case 0
  with assms show ?thesis
    by (simp add: col_last_5_games_result_def fillna_def nth_shift1 length_rolling length_float_col last_n_def length_shift1)
next
  case (Suc j)
  with assms have j: "j < length perf" by simp
  have "drop (Suc j - 5) (take (Suc j) perf) \<noteq> []" using j by simp
  then have "1 \<le> length (drop (Suc j - 5) (take (Suc j) perf))"
    by (simp add: Suc_le_eq del: length_drop length_take)
  then have "rolling 5 1 sum_list (float_col perf) ! j = Some (real_of_int (sum_list (drop (Suc j - 5) (take (Suc j) perf))))"
    using j by (simp add: rolling_def length_float_col take_float_col drop_float_col dropna_float_col sum_list_real_of_int del: length_drop length_take)
  moreover have "last_n 5 (take k perf) = drop (Suc j - 5) (take (Suc j) perf)"
    using assms Suc by (simp add: last_n_def min_def)
  ultimately show ?thesis using assms Suc
    by (simp add: col_last_5_games_result_def fillna_def nth_shift1 length_rolling length_float_col length_shift1)
qed

lemma nth_col_streak:
  "k < length perf \<Longrightarrow> col_streak perf ! k = Some (real_of_int (streak_entering (take k perf)))"
  by (simp add: col_streak_def streak_loop_eq float_col_def)

lemma nth_col_win_pct:
  assumes "k < length perf"
  shows "col_win_pct perf ! k = (if k = 0 then None else Some (mean (map real_of_int (take k perf))))"
proof (cases k)
  case 0
  with assms show ?thesis
    by (simp add: col_win_pct_def nth_shift1 length_expanding length_float_col)
next
  case (Suc j)
  with assms have j: "j < length perf" by simp
  then have "expanding mean (float_col perf) ! j = Some (mean (map real_of_int (take (Suc j) perf)))"
    by (auto simp add: expanding_def length_float_col take_float_col dropna_float_col Suc_le_eq)
  then show ?thesis using assms Suc
    by (simp add: col_win_pct_def nth_shift1 length_expanding length_float_col)
qed

lemma nth_col_avg_point_diff:
  assumes "k < length pd"
  shows "col_avg_point_diff pd ! k =
    Some (if dropna (take k pd) = [] then 0 else mean (dropna (take k pd)))"
proof (cases k)
  case 0
  with assms show ?thesis
    by (simp add: col_avg_point_diff_def fillna_def nth_shift1 length_expanding length_shift1)
next
  case (Suc j)
  with assms have j: "j < length pd" by simp
  then have "expanding mean pd ! j =
      (if dropna (take (Suc j) pd) = [] then None else Some (mean (dropna (take (Suc j) pd))))"
    by (simp add: expanding_def Suc_le_eq)
  then show ?thesis using assms Suc
    by (simp add: col_avg_point_diff_def fillna_def nth_shift1 length_expanding length_shift1)
qed

lemma nth_col_avg_point_diff_last_5:
  assumes "k < length pd"
  shows "col_avg_point_diff_last_5 pd ! k =
    Some (if 5 \<le> length (dropna (last_n 5 (take k pd))) then mean (dropna (last_n 5 (take k pd))) else 0)"
proof (cases k)
  case 0
  with assms show ?thesis
    by (simp add: col_avg_point_diff_last_5_def fillna_def nth_shift1 length_rolling length_shift1 last_n_def)
next
  case (Suc j)
  with assms have j: "j < length pd" by simp
  have w: "last_n 5 (take k pd) = drop (Suc j - 5) (take (Suc j) pd)"
    using assms Suc by (simp add: last_n_def min_def)
  from j have "rolling 5 5 mean pd ! j =
      (if 5 \<le> length (dropna (last_n 5 (take k pd))) then Some (mean (dropna (last_n 5 (take k pd)))) else None)"
    by (simp add: rolling_def w Let_def del: length_drop length_take)
  then show ?thesis using assms Suc
    by (simp add: col_avg_point_diff_last_5_def fillna_def nth_shift1 length_rolling length_shift1)
qed

section \<open>Rows, labels and the write-back\<close>

text \<open>
  The label \<open>i\<close> of a row of \<open>team_df\<close> stands at the position that counts the rows of the
  team before \<open>i\<close>, and the rows of \<open>team_df\<close> before that position are the games of the
  team before row \<open>i\<close>.
\<close>

lemma team_rows_filter:
  "team_rows df s team = filter (\<lambda>i. season (df ! i) = s \<and> plays team (df ! i)) [0..<length df]"
  by (auto simp add: team_rows_def season_rows_def plays_def intro: filter_cong)

lemma filter_upt_split:
  assumes "i < n" "P i"
  shows "filter P [0..<n] = filter P [0..<i] @ i # filter P [Suc i..<n]"
proof -
  have "[0..<n] = [0..<i] @ i # [Suc i..<n]"
    using assms(1) by (metis less_imp_le_nat upt_add_eq_append upt_conv_Cons le0 le_add_diff_inverse)
  then have "filter P [0..<n] = filter P ([0..<i] @ i # [Suc i..<n])" by simp
  then show ?thesis using assms(2) by simp
qed

lemma map_nth_filter_upt:
  "i \<le> length xs \<Longrightarrow> map (\<lambda>j. xs ! j) (filter (\<lambda>j. Q (xs ! j)) [0..<i]) = filter Q (take i xs)"
proof (induction i)
  case 0
  then show ?case by simp
next
  case (Suc i)
  then have "take (Suc i) xs = take i xs @ [xs ! i]"
    by (simp add: take_Suc_conv_app_nth)
  with Suc show ?case by simp
qed

lemma distinct_filter_upt: "distinct (filter P [0..<n])"
  by simp

lemma at_label_team_row:
  assumes "i < n" "P i" "length col = length (filter P [0..<n])"
  shows "at_label (filter P [0..<n]) col i = col ! length (filter P [0..<i])"
proof -
  let ?idx = "filter P [0..<n]"
  let ?k = "length (filter P [0..<i])"
  have split: "?idx = filter P [0..<i] @ i # filter P [Suc i..<n]"
    using assms(1,2) by (rule filter_upt_split)
  have "length ?idx = ?k + Suc (length (filter P [Suc i..<n]))"
    using arg_cong [OF split, of length] by simp
  then have k: "?k < length ?idx" by simp
  have nth: "?idx ! ?k = i"
    by (subst split) (simp add: nth_append)
  have "map_of (zip ?idx col) (?idx ! ?k) = Some (col ! ?k)"
    using assms(3) k by (intro map_of_zip_nth) simp_all
  then show ?thesis
    by (simp add: at_label_def nth)
qed

lemma take_team_df:
  assumes "i < length df" "season (df ! i) = s" "plays team (df ! i)"
  shows "take (length (filter (\<lambda>j. season (df ! j) = s \<and> plays team (df ! j)) [0..<i]))
           (map (\<lambda>j. df ! j) (team_rows df s team)) = prior_games df i team"
proof -
  let ?P = "\<lambda>j. season (df ! j) = s \<and> plays team (df ! j)"
  have split: "filter ?P [0..<length df] = filter ?P [0..<i] @ i # filter ?P [Suc i..<length df]"
    using assms by (intro filter_upt_split) simp_all
  have "take (length (filter ?P [0..<i])) (map (\<lambda>j. df ! j) (team_rows df s team)) =
      map (\<lambda>j. df ! j) (filter ?P [0..<i])"
    by (simp only: team_rows_filter split map_append) simp
  also have "\<dots> = filter (\<lambda>g. season g = s \<and> plays team g) (take i df)"
    using assms(1) map_nth_filter_upt [of i df "\<lambda>g. season g = s \<and> plays team g"] by simp
  finally show ?thesis
    using assms(2) by (simp add: prior_games_def)
qed

text \<open>One update, row by row.\<close>

lemma write_metrics_nan:
  "write_metrics (entering_metrics team prior) nan_metrics = entering_metrics team prior"
  by (simp add: write_metrics_def entering_metrics_def nan_metrics_def Let_def)

lemma write_metrics_idem:
  "write_metrics (entering_metrics team prior) (entering_metrics team prior) = entering_metrics team prior"
  by (simp add: write_metrics_def)

lemma length_streak_loop: "length (streak_loop S acc ps) = length acc + length ps"
  by (induction ps arbitrary: S acc) simp_all

lemma length_cols:
  "length (col_last_5_games_result perf) = length perf"
  "length (col_streak perf) = length perf"
  "length (col_win_pct perf) = length perf"
  "length (col_avg_point_diff pd) = length pd"
  "length (col_avg_point_diff_last_5 pd) = length pd"
  by (simp_all add: col_last_5_games_result_def col_streak_def col_win_pct_def
      col_avg_point_diff_def col_avg_point_diff_last_5_def length_fillna length_shift1
      length_rolling length_expanding length_float_col length_streak_loop)

lemma team_row_values:
  assumes i: "i < length df" and s: "season (df ! i) = s" and t: "plays team (df ! i)"
  defines "idx \<equiv> team_rows df s team"
  defines "perf \<equiv> map (performance team) (map (\<lambda>i. df ! i) idx)"
  defines "pd \<equiv> map (point_diff team) (map (\<lambda>i. df ! i) idx)"
  defines "e \<equiv> entering_metrics team (prior_games df i team)"
  shows "at_label idx (col_last_5_games_result perf) i = last_5_games_result e"
    and "at_label idx (col_streak perf) i = streak e"
    and "at_label idx (col_win_pct perf) i = win_pct e"
    and "at_label idx (col_avg_point_diff pd) i = avg_point_diff e"
    and "at_label idx (col_avg_point_diff_last_5 pd) i = avg_point_diff_last_5 e"
proof -
  let ?P = "\<lambda>j. season (df ! j) = s \<and> plays team (df ! j)"
  let ?k = "length (filter ?P [0..<i])"
  have idx: "idx = filter ?P [0..<length df]"
    by (simp add: idx_def team_rows_filter)
  have Pi: "?P i" using s t by simp
  have len: "length perf = length idx" "length pd = length idx"
    by (simp_all add: perf_def pd_def)
  have "length idx = ?k + Suc (length (filter ?P [Suc i..<length df]))"
    using arg_cong [OF filter_upt_split [OF i, of ?P, OF Pi], of length] by (simp add: idx)
  then have k: "?k < length perf" "?k < length pd"
    by (simp_all add: len)
  have at: "\<And>col. length col = length idx \<Longrightarrow> at_label idx col i = col ! ?k"
    unfolding idx using i Pi by (intro at_label_team_row) simp_all
  have prior: "take ?k (map (\<lambda>j. df ! j) idx) = prior_games df i team"
    unfolding idx_def using i s t by (rule take_team_df)
  have prior': "map (\<lambda>j. df ! j) (take ?k idx) = prior_games df i team"
    using prior by (simp only: take_map)
  have tperf: "take ?k perf = map (performance team) (prior_games df i team)"
    by (simp only: perf_def take_map prior')
  have tpd: "take ?k pd = map (point_diff team) (prior_games df i team)"
    by (simp only: pd_def take_map prior')
  have "length (prior_games df i team) = ?k"
    using arg_cong [OF prior, of length] k(1) by (simp add: len)
  then have k0: "filter ?P [0..<i] = [] \<longleftrightarrow> prior_games df i team = []"
    by (metis (lifting) length_0_conv)
  show "at_label idx (col_last_5_games_result perf) i = last_5_games_result e"
    using nth_col_last_5_games_result [OF k(1)]
    by (simp add: at length_cols len tperf e_def entering_metrics_def Let_def)
  show "at_label idx (col_streak perf) i = streak e"
    using nth_col_streak [OF k(1)]
    by (simp add: at length_cols len tperf e_def entering_metrics_def Let_def)
  show "at_label idx (col_win_pct perf) i = win_pct e"
    using nth_col_win_pct [OF k(1)]
    by (simp add: at length_cols len tperf k0 e_def entering_metrics_def Let_def)
  show "at_label idx (col_avg_point_diff pd) i = avg_point_diff e"
    using nth_col_avg_point_diff [OF k(2)]
    by (simp add: at length_cols len tpd e_def entering_metrics_def Let_def)
  show "at_label idx (col_avg_point_diff_last_5 pd) i = avg_point_diff_last_5 e"
    using nth_col_avg_point_diff_last_5 [OF k(2)]
    by (simp add: at length_cols len tpd e_def entering_metrics_def Let_def)
qed

lemma length_update_team: "length (update_team df s team st) = length st"
  by (simp add: update_team_def Let_def)

lemma mem_team_rows:
  "i \<in> set (team_rows df s team) \<longleftrightarrow> i < length df \<and> season (df ! i) = s \<and> plays team (df ! i)"
  by (auto simp add: team_rows_filter)

lemma update_team_nth:
  assumes len: "length st = length df" and i: "i < length df"
  shows "update_team df s team st ! i =
    (if season (df ! i) = s \<and> home_team (df ! i) = team
     then write_metrics (entering_metrics team (prior_games df i team)) (fst (st ! i))
     else fst (st ! i),
     if season (df ! i) = s \<and> away_team (df ! i) = team
     then write_metrics (entering_metrics team (prior_games df i team)) (snd (st ! i))
     else snd (st ! i))"
proof (cases "season (df ! i) = s \<and> plays team (df ! i)")
  case True
  then have s: "season (df ! i) = s" and t: "plays team (df ! i)" by simp_all
  note v = team_row_values [OF i s t]
  have mem: "i \<in> set (team_rows df s team)"
    using i s t by (simp add: mem_team_rows)
  obtain h a where st: "st ! i = (h, a)" by (cases "st ! i")
  show ?thesis
    using i len mem s
    by (simp add: update_team_def Let_def st v write_metrics_def del: map_map)
next
  case False
  then have mem: "i \<notin> set (team_rows df s team)"
    by (simp add: mem_team_rows)
  obtain h a where st: "st ! i = (h, a)" by (cases "st ! i")
  from False have "\<not> (season (df ! i) = s \<and> home_team (df ! i) = team)"
     "\<not> (season (df ! i) = s \<and> away_team (df ! i) = team)"
    by (auto simp add: plays_def)
  then show ?thesis
    using i len mem by (auto simp add: update_team_def Let_def st)
qed

text \<open>
  The loops over the seasons and their teams: an update for a season and a team writes
  the rows of the team in that season and no other, and every row is written for its home
  team and for its away team.
\<close>

lemma rollup_inv_init: "rollup_inv df {} (replicate (length df) (nan_metrics, nan_metrics))"
  by (simp add: rollup_inv_def)

lemma rollup_inv_update:
  assumes "rollup_inv df D st"
  shows "rollup_inv df (insert (s, team) D) (update_team df s team st)"
proof -
  from assms have len: "length st = length df"
    by (simp add: rollup_inv_def)
  have "fst (update_team df s team st ! i) =
          (if (season (df ! i), home_team (df ! i)) \<in> insert (s, team) D
           then entering_metrics (home_team (df ! i)) (prior_games df i (home_team (df ! i)))
           else nan_metrics) \<and>
        snd (update_team df s team st ! i) =
          (if (season (df ! i), away_team (df ! i)) \<in> insert (s, team) D
           then entering_metrics (away_team (df ! i)) (prior_games df i (away_team (df ! i)))
           else nan_metrics)" if i: "i < length df" for i
  proof -
    from assms i have old:
      "fst (st ! i) =
          (if (season (df ! i), home_team (df ! i)) \<in> D
           then entering_metrics (home_team (df ! i)) (prior_games df i (home_team (df ! i)))
           else nan_metrics)"
      "snd (st ! i) =
          (if (season (df ! i), away_team (df ! i)) \<in> D
           then entering_metrics (away_team (df ! i)) (prior_games df i (away_team (df ! i)))
           else nan_metrics)"
      by (simp_all add: rollup_inv_def)
    show ?thesis
      by (simp add: update_team_nth [OF len i] old write_metrics_nan write_metrics_idem)
  qed
  then show ?thesis
    by (simp add: rollup_inv_def length_update_team len)
qed

lemma rollup_inv_teams:
  "rollup_inv df D st \<Longrightarrow> rollup_inv df (D \<union> {s} \<times> set ts) (fold (update_team df s) ts st)"
proof (induction ts arbitrary: D st)
  case Nil
  then show ?case by simp
next
  case (Cons t ts)
  from Cons.prems have "rollup_inv df (insert (s, t) D) (update_team df s t st)"
    by (rule rollup_inv_update)
  then have "rollup_inv df (insert (s, t) D \<union> {s} \<times> set ts)
      (fold (update_team df s) ts (update_team df s t st))"
    by (rule Cons.IH)
  moreover have "insert (s, t) D \<union> {s} \<times> set ts = D \<union> {s} \<times> set (t # ts)"
    by auto
  ultimately show ?case by simp
qed

lemma rollup_inv_seasons:
  "rollup_inv df D st \<Longrightarrow>
   rollup_inv df (D \<union> (\<Union>s\<in>set ss. {s} \<times> set (season_teams df s)))
     (fold (\<lambda>s. fold (update_team df s) (season_teams df s)) ss st)"
proof (induction ss arbitrary: D st)
  case Nil
  then show ?case by simp
next
  case (Cons s ss)
  from Cons.prems have "rollup_inv df (D \<union> {s} \<times> set (season_teams df s))
      (fold (update_team df s) (season_teams df s) st)"
    by (rule rollup_inv_teams)
  then have "rollup_inv df
      ((D \<union> {s} \<times> set (season_teams df s)) \<union> (\<Union>s\<in>set ss. {s} \<times> set (season_teams df s)))
      (fold (\<lambda>s. fold (update_team df s) (season_teams df s)) ss
         (fold (update_team df s) (season_teams df s) st))"
    by (rule Cons.IH)
  moreover have "(D \<union> {s} \<times> set (season_teams df s)) \<union> (\<Union>s\<in>set ss. {s} \<times> set (season_teams df s))
      = D \<union> (\<Union>s\<in>set (s # ss). {s} \<times> set (season_teams df s))"
    by auto
  ultimately show ?case by simp
qed

lemma set_unique: "set (unique xs) = set xs"
  by (simp add: unique_def)

lemma mem_season_rows: "i \<in> set (season_rows df s) \<longleftrightarrow> i < length df \<and> season (df ! i) = s"
  by (auto simp add: season_rows_def)

lemma teams_in_season_teams:
  assumes "i < length df"
  shows "home_team (df ! i) \<in> set (season_teams df (season (df ! i)))"
    and "away_team (df ! i) \<in> set (season_teams df (season (df ! i)))"
  using assms by (auto simp add: season_teams_def set_unique mem_season_rows image_iff)

lemma rollup_state:
  assumes "i < length df"
  defines "st \<equiv> fold (\<lambda>s. fold (update_team df s) (season_teams df s))
                 (unique (map season df))
                 (replicate (length df) (nan_metrics, nan_metrics))"
  shows "length st = length df"
    and "fst (st ! i) = entering_metrics (home_team (df ! i)) (prior_games df i (home_team (df ! i)))"
    and "snd (st ! i) = entering_metrics (away_team (df ! i)) (prior_games df i (away_team (df ! i)))"
proof -
  let ?D = "\<Union>s\<in>set (unique (map season df)). {s} \<times> set (season_teams df s)"
  have inv: "rollup_inv df ?D st"
    using rollup_inv_seasons [OF rollup_inv_init, of df "unique (map season df)"]
    by (simp add: st_def)
  have s: "season (df ! i) \<in> set (unique (map season df))"
    using assms(1) by (simp add: set_unique)
  have "(season (df ! i), home_team (df ! i)) \<in> ?D" "(season (df ! i), away_team (df ! i)) \<in> ?D"
    using s teams_in_season_teams [OF assms(1)] by blast+
  with inv assms(1) show "length st = length df"
    and "fst (st ! i) = entering_metrics (home_team (df ! i)) (prior_games df i (home_team (df ! i)))"
    and "snd (st ! i) = entering_metrics (away_team (df ! i)) (prior_games df i (away_team (df ! i)))"
    by (simp_all add: rollup_inv_def)
qed

lemma rollup_row:
  assumes "i < length df0"
  defines "df \<equiv> sort_games df0"
  defines "out \<equiv> calculate_team_performance_metrics df0 ! i"
  shows "game out = df ! i"
    and "home_team_metrics out = entering_metrics (home_team (df ! i)) (prior_games df i (home_team (df ! i)))"
    and "away_team_metrics out = entering_metrics (away_team (df ! i)) (prior_games df i (away_team (df ! i)))"
proof -
  have i: "i < length df" using assms(1) by (simp add: df_def sort_games_def)
  note st = rollup_state [OF i]
  let ?st = "fold (\<lambda>s. fold (update_team df s) (season_teams df s))
                 (unique (map season df))
                 (replicate (length df) (nan_metrics, nan_metrics))"
  obtain h a where ha: "?st ! i = (h, a)" by (cases "?st ! i")
  have out: "out = (\<lambda>(g, (h, a)).
               \<lparr>game = g, home_team_metrics = h, away_team_metrics = a,
                last_5_hv = sub_cell (last_5_games_result h) (last_5_games_result a),
                streak_hv = sub_cell (streak h) (streak a),
                win_pct_hv = sub_cell (win_pct h) (win_pct a),
                point_diff_hv = sub_cell (avg_point_diff h) (avg_point_diff a),
                point_diff_last_5_hv =
                  sub_cell (avg_point_diff_last_5 h) (avg_point_diff_last_5 a)\<rparr>) (df ! i, ?st ! i)"
    using i st(1)
    by (simp add: out_def calculate_team_performance_metrics_def Let_def df_def sort_games_def)
  show "game out = df ! i" by (simp add: out ha)
  show "home_team_metrics out = entering_metrics (home_team (df ! i)) (prior_games df i (home_team (df ! i)))"
    using st(2) by (simp add: out ha)
  show "away_team_metrics out = entering_metrics (away_team (df ! i)) (prior_games df i (away_team (df ! i)))"
    using st(3) by (simp add: out ha)
qed

lemma length_calculate_team_performance_metrics:
  "length (calculate_team_performance_metrics df0) = length df0"
  using rollup_state(1) [of 0 "sort_games df0"]
  by (cases df0) (simp_all add: calculate_team_performance_metrics_def Let_def sort_games_def)

section \<open>Claims on the team performance metrics\<close>

lemma sort_example: "sort_games example_season = 
 [\<lparr>game_datetime = 45, season = 2022, home_team = ''NYK'', away_team = ''BOS'',
        home_score = Some 88, away_score = Some 70\<rparr>,
 \<lparr>game_datetime = 10, season = 2023, home_team = ''BOS'', away_team = ''NYK'',
        home_score = Some 100, away_score = Some 90\<rparr>,
 \<lparr>game_datetime = 20, season = 2023, home_team = ''NYK'', away_team = ''BOS'',
        home_score = Some 95, away_score = Some 96\<rparr>,
  \<lparr>game_datetime = 30, season = 2023, home_team = ''BOS'', away_team = ''NYK'',
        home_score = Some 101, away_score = Some 99\<rparr>,
      \<lparr>game_datetime = 40, season = 2023, home_team = ''NYK'', away_team = ''BOS'',
        home_score = Some 110, away_score = Some 80\<rparr>,
      \<lparr>game_datetime = 50, season = 2023, home_team = ''BOS'', away_team = ''NYK'',
        home_score = None, away_score = None\<rparr>]"
  by (simp add: sort_games_def example_season_def less_eq_prod_def less_prod_def)

lemma prior_games_sorted:
  assumes "i < length df0" "g' \<in> set (prior_games (sort_games df0) i team)"
  shows "season g' = season (sort_games df0 ! i)" "plays team g'"
    "game_datetime g' \<le> game_datetime (sort_games df0 ! i)" "g' \<in> set df0"
proof -
  let ?df = "sort_games df0"
  let ?key = "\<lambda>g. (season g, game_datetime g)"
  from assms(2) have s: "season g' = season (?df ! i)" and "plays team g'"
    and mem: "g' \<in> set (take i ?df)"
    by (simp_all add: prior_games_def)
  then show "season g' = season (?df ! i)" "plays team g'" by simp_all
  from mem obtain j where j: "j < i" "g' = ?df ! j"
    using assms(1) by (auto simp add: in_set_conv_nth sort_games_def)
  have "sorted (map ?key ?df)" by (simp add: sort_games_def)
  then have "map ?key ?df ! j \<le> map ?key ?df ! i"
    using j(1) assms(1) by (intro sorted_nth_mono) (simp_all add: sort_games_def)
  then have "?key g' \<le> ?key (?df ! i)"
    using j assms(1) by (simp add: sort_games_def)
  with s show "game_datetime g' \<le> game_datetime (?df ! i)"
    by (simp add: less_eq_prod_def)
  from mem have "g' \<in> set ?df" by (rule in_set_takeD)
  then show "g' \<in> set df0" by (simp add: sort_games_def)
qed

lemma col_streak_eq:
  "col_streak perf = map (\<lambda>k. Some (real_of_int (streak_entering (take k perf)))) [0..<length perf]"
  by (simp add: col_streak_def streak_loop_eq float_col_def)

text \<open>
  Claim C2. In the chronological game sequence \<open>team_df\<close> of a team in a season, the
  streak emitted at game \<open>i\<close> is the state the machine \<open>streak_step\<close> has reached
  from 0 after the first \<open>i\<close> games, the state carried into game \<open>i\<close>. A team that
  wins its first three games and loses the fourth enters its first five games with the
  streaks 0, 1, 2, 3 and -1.
\<close>

theorem streak_follows_state_machine:
  "(i < length team_df \<longrightarrow>
      col_streak (map (performance team) team_df) ! i =
      Some (real_of_int (foldl streak_step 0 (map (performance team) (take i team_df))))) \<and>
   (5 \<le> length team_df \<and> is_win team (team_df ! 0) \<and> is_win team (team_df ! 1) \<and>
    is_win team (team_df ! 2) \<and> \<not> is_win team (team_df ! 3) \<longrightarrow>
      take 5 (col_streak (map (performance team) team_df)) =
      [Some 0, Some 1, Some 2, Some 3, Some (- 1)])"
proof (intro conjI impI)
  assume "i < length team_df"
  then show "col_streak (map (performance team) team_df) ! i =
      Some (real_of_int (foldl streak_step 0 (map (performance team) (take i team_df))))"
    by (simp add: nth_col_streak streak_entering_def take_map)
next
  assume a: "5 \<le> length team_df \<and> is_win team (team_df ! 0) \<and> is_win team (team_df ! 1) \<and>
    is_win team (team_df ! 2) \<and> \<not> is_win team (team_df ! 3)"
  then have "\<exists>g0 g1 g2 g3 g4 rest. team_df = g0 # g1 # g2 # g3 # g4 # rest"
    by (auto simp add: eval_nat_numeral Suc_le_length_iff)
  then obtain g0 g1 g2 g3 g4 rest where t: "team_df = g0 # g1 # g2 # g3 # g4 # rest"
    by blast
  with a have perf: "map (performance team) team_df =
      1 # 1 # 1 # (- 1) # performance team g4 # map (performance team) rest"
    by (simp add: performance_def)
  have "[0..<5] = [0, 1, 2, 3, 4::nat]"
    by code_simp
  then have "take 5 [0..<length (map (performance team) team_df)] = [0, 1, 2, 3, 4]"
    using a by (simp add: take_upt)
  then have "take 5 (col_streak (map (performance team) team_df)) =
      map (\<lambda>k. Some (real_of_int (streak_entering (take k (map (performance team) team_df)))))
        [0, 1, 2, 3, 4]"
    by (simp only: col_streak_eq take_map)
  also have "\<dots> = [Some 0, Some 1, Some 2, Some 3, Some (- 1)]"
    by (simp add: perf streak_entering_def streak_step_def)
  finally show "take 5 (col_streak (map (performance team) team_df)) =
      [Some 0, Some 1, Some 2, Some 3, Some (- 1)]" .
qed

theorem streak_follows_state_machine_witness:
  "4 < length example_team_df \<and>
   col_streak (map (performance ''BOS'') example_team_df) ! 4 = Some (- 1) \<and>
   5 \<le> length example_team_df \<and> is_win ''BOS'' (example_team_df ! 0) \<and>
   is_win ''BOS'' (example_team_df ! 1) \<and> is_win ''BOS'' (example_team_df ! 2) \<and>
   \<not> is_win ''BOS'' (example_team_df ! 3) \<and>
   take 5 (col_streak (map (performance ''BOS'') example_team_df)) =
     [Some 0, Some 1, Some 2, Some 3, Some (- 1)]"
  using streak_follows_state_machine [of 4 example_team_df "''BOS''"]
  by (simp add: example_team_df_def is_win_def score_gt_def performance_def streak_step_def)

lemma entering_metrics_first:
  "entering_metrics team [] = \<lparr>last_5 = None, last_5_games_result = Some 0, streak = Some 0,
     win_pct = None, avg_point_diff = Some 0, avg_point_diff_last_5 = Some 0\<rparr>"
  by (simp add: entering_metrics_def last_n_def streak_entering_def)

lemma length_dropna_le: "length (dropna s) \<le> length s"
  by (induction s rule: dropna.induct) simp_all

lemma entering_metrics_short:
  assumes "length prior < 5"
  shows "avg_point_diff_last_5 (entering_metrics team prior) = Some 0"
    and "last_5_games_result (entering_metrics team prior) =
      Some (real_of_int (sum_list (map (performance team) prior)))"
proof -
  have "length (dropna (last_n 5 (map (point_diff team) prior))) \<le> length (last_n 5 (map (point_diff team) prior))"
    by (rule length_dropna_le)
  also have "\<dots> < 5" using assms by (simp add: last_n_def)
  finally show "avg_point_diff_last_5 (entering_metrics team prior) = Some 0"
    by (simp add: entering_metrics_def Let_def)
  show "last_5_games_result (entering_metrics team prior) =
      Some (real_of_int (sum_list (map (performance team) prior)))"
    using assms by (simp add: entering_metrics_def Let_def last_n_def)
qed

lemma entering_metrics_win_pct:
  "prior \<noteq> [] \<Longrightarrow> win_pct (entering_metrics team prior) =
     Some (real_of_int (sum_list (map (performance team) prior)) / real (length prior))"
  by (simp add: entering_metrics_def Let_def mean_def sum_list_real_of_int [symmetric] comp_def)

text \<open>
  Without ties the games before a row are the earlier games: when no team appears twice at
  the same instant of a season, the games of a team before row \<open>i\<close> of the sorted table
  are its games of the season with a smaller \<open>game_datetime\<close>, in their order.
\<close>

lemma distinct_appearances_sort:
  "distinct (home_df (sort_games df0) @ away_df (sort_games df0)) \<longleftrightarrow>
   distinct (home_df df0 @ away_df df0)"
  by (simp add: home_df_def away_df_def distinct_map sort_games_def)

lemma no_tie:
  assumes d: "distinct (home_df df @ away_df df)"
    and ij: "j < length df" "i < length df" "j \<noteq> i"
    and s: "season (df ! j) = season (df ! i)"
    and t: "plays team (df ! j)" "plays team (df ! i)"
  shows "game_datetime (df ! j) \<noteq> game_datetime (df ! i)"
proof
  assume eq: "game_datetime (df ! j) = game_datetime (df ! i)"
  let ?kh = "\<lambda>g. \<lparr>app_datetime = game_datetime g, app_season = season g, app_team = home_team g\<rparr>"
  let ?ka = "\<lambda>g. \<lparr>app_datetime = game_datetime g, app_season = season g, app_team = away_team g\<rparr>"
  from d have dd: "distinct df" and ih: "inj_on ?kh (set df)" and ia: "inj_on ?ka (set df)"
    and disj: "?kh ` set df \<inter> ?ka ` set df = {}"
    by (simp_all add: home_df_def away_df_def distinct_map)
  from dd ij have ne: "df ! j \<noteq> df ! i"
    by (simp add: nth_eq_iff_index_eq)
  have mem: "df ! j \<in> set df" "df ! i \<in> set df"
    using ij by simp_all
  have h: "home_team (df ! j) = team \<or> away_team (df ! j) = team"
    and h': "home_team (df ! i) = team \<or> away_team (df ! i) = team"
    using t by (simp_all add: plays_def)
  have hh: False if "home_team (df ! j) = team" "home_team (df ! i) = team"
  proof -
    from that eq s have "?kh (df ! j) = ?kh (df ! i)" by simp
    from inj_onD [OF ih this mem(1) mem(2)] ne show False by simp
  qed
  have aa: False if "away_team (df ! j) = team" "away_team (df ! i) = team"
  proof -
    from that eq s have "?ka (df ! j) = ?ka (df ! i)" by simp
    from inj_onD [OF ia this mem(1) mem(2)] ne show False by simp
  qed
  have ha: False if "home_team (df ! j) = team" "away_team (df ! i) = team"
  proof -
    from that eq s have e: "?kh (df ! j) = ?ka (df ! i)" by simp
    have "?kh (df ! j) \<in> ?kh ` set df" using mem(1) by (rule imageI)
    moreover have "?ka (df ! i) \<in> ?ka ` set df" using mem(2) by (rule imageI)
    ultimately have "?kh (df ! j) \<in> ?kh ` set df \<inter> ?ka ` set df"
      unfolding e by (rule IntI)
    with disj show False by simp
  qed
  have ah: False if "away_team (df ! j) = team" "home_team (df ! i) = team"
  proof -
    from that eq s have e: "?kh (df ! i) = ?ka (df ! j)" by simp
    have "?kh (df ! i) \<in> ?kh ` set df" using mem(2) by (rule imageI)
    moreover have "?ka (df ! j) \<in> ?ka ` set df" using mem(1) by (rule imageI)
    ultimately have "?kh (df ! i) \<in> ?kh ` set df \<inter> ?ka ` set df"
      unfolding e by (rule IntI)
    with disj show False by simp
  qed
  from h h' hh aa ha ah show False by blast
qed

lemma prior_games_strict:
  assumes i: "i < length df0" and d: "distinct (home_df df0 @ away_df df0)"
    and t: "plays team (sort_games df0 ! i)"
  shows "prior_games (sort_games df0) i team =
    filter (\<lambda>g'. season g' = season (sort_games df0 ! i) \<and> plays team g' \<and>
                   game_datetime g' < game_datetime (sort_games df0 ! i)) (sort_games df0)"
proof -
  let ?df = "sort_games df0"
  let ?g = "?df ! i"
  let ?P = "\<lambda>g'. season g' = season ?g \<and> plays team g'"
  let ?Q = "\<lambda>g'. season g' = season ?g \<and> plays team g' \<and> game_datetime g' < game_datetime ?g"
  let ?key = "\<lambda>g. (season g, game_datetime g)"
  have len: "i < length ?df" using i by (simp add: sort_games_def)
  have ds: "distinct (home_df ?df @ away_df ?df)"
    using d by (simp only: distinct_appearances_sort)
  have sorted: "sorted (map ?key ?df)" by (simp add: sort_games_def)
  have mono: "?key (?df ! a) \<le> ?key (?df ! b)" if "a \<le> b" "b < length ?df" for a b
    using sorted_nth_mono [OF sorted, of a b] that by simp
  have before: "?Q g' = ?P g'" if "g' \<in> set (take i ?df)" for g'
  proof -
    from that obtain j where j: "j < i" "g' = ?df ! j"
      using len by (auto simp add: in_set_conv_nth)
    show ?thesis
    proof (cases "?P g'")
      case True
      from mono [of j i] j len True have "game_datetime g' \<le> game_datetime ?g"
        by (simp add: less_eq_prod_def)
      moreover have "game_datetime g' \<noteq> game_datetime ?g"
        using no_tie [OF ds _ len, of j team] j len True t by simp
      ultimately show ?thesis using True by simp
    next
      case False
      then show ?thesis by auto
    qed
  qed
  have after: "\<not> ?Q g'" if "g' \<in> set (drop i ?df)" for g'
  proof
    assume q: "?Q g'"
    from that obtain k where k: "k < length ?df - i" "g' = ?df ! (i + k)"
      by (auto simp add: in_set_conv_nth)
    define j where "j = i + k"
    with k have j: "i \<le> j" "j < length ?df" "g' = ?df ! j"
      by simp_all
    from mono [OF j(1,2)] j(3) q have "game_datetime ?g \<le> game_datetime g'"
      by (simp add: less_eq_prod_def)
    with q show False by simp
  qed
  have "filter ?Q ?df = filter ?Q (take i ?df) @ filter ?Q (drop i ?df)"
    by (metis append_take_drop_id filter_append)
  also have "filter ?Q (take i ?df) = filter ?P (take i ?df)"
    using before by (intro filter_cong) simp_all
  also have "filter ?Q (drop i ?df) = []"
    using after by (simp add: filter_empty_conv)
  finally show ?thesis by (simp add: prior_games_def)
qed

text \<open>
  Claim C1. Let \<open>g\<close> be row \<open>i\<close> of the table in the order of (season, game_datetime), the
  order in which the rollup reads it. The metrics written for the home team and for the away
  team of \<open>g\<close> are \<open>entering_metrics\<close> of the games that come before row \<open>i\<close> in that order,
  are of the season of \<open>g\<close> and have the team on either side: a function of these games
  alone. All of them are of the same season and not later than \<open>g\<close>; \<open>g\<close> itself, the later
  rows and the rows of other seasons are not among them. When no team appears twice at the
  same instant of a season, they are the games of the team in the season that are
  strictly earlier than \<open>g\<close>.
\<close>

theorem rollup_uses_prior_games_only:
  assumes "i < length df0"
  shows "let df = sort_games df0; g = df ! i;
             out = calculate_team_performance_metrics df0 ! i
         in game out = g \<and>
            home_team_metrics out =
              entering_metrics (home_team g) (prior_games df i (home_team g)) \<and>
            away_team_metrics out =
              entering_metrics (away_team g) (prior_games df i (away_team g)) \<and>
            (\<forall>team. \<forall>g' \<in> set (prior_games df i team).
               g' \<in> set (take i df) \<and> season g' = season g \<and> plays team g' \<and>
               game_datetime g' \<le> game_datetime g) \<and>
            (distinct (home_df df0 @ away_df df0) \<longrightarrow>
               (\<forall>team. plays team g \<longrightarrow>
                  prior_games df i team =
                    filter (\<lambda>g'. season g' = season g \<and> plays team g' \<and>
                                   game_datetime g' < game_datetime g) df))"
proof -
  have "g' \<in> set (take i (sort_games df0))"
    if "g' \<in> set (prior_games (sort_games df0) i team)" for g' team
    using that by (simp add: prior_games_def)
  moreover note rollup_row [OF assms] prior_games_sorted [OF assms]
  moreover have "prior_games (sort_games df0) i team =
      filter (\<lambda>g'. season g' = season (sort_games df0 ! i) \<and> plays team g' \<and>
                     game_datetime g' < game_datetime (sort_games df0 ! i)) (sort_games df0)"
    if "distinct (home_df df0 @ away_df df0)" "plays team (sort_games df0 ! i)" for team
    using assms that by (rule prior_games_strict)
  ultimately show ?thesis
    unfolding Let_def by blast
qed

lemma example_season_distinct: "distinct (home_df example_season @ away_df example_season)"
  by code_simp

theorem rollup_uses_prior_games_only_witness:
  "3 < length example_season \<and>
   distinct (home_df example_season @ away_df example_season) \<and>
   plays ''BOS'' (sort_games example_season ! 3) \<and>
   game (calculate_team_performance_metrics example_season ! 3) =
     \<lparr>game_datetime = 30, season = 2023, home_team = ''BOS'', away_team = ''NYK'',
        home_score = Some 101, away_score = Some 99\<rparr> \<and>
   home_team_metrics (calculate_team_performance_metrics example_season ! 3) =
     \<lparr>last_5 = None, last_5_games_result = Some 2, streak = Some 2, win_pct = Some 1,
        avg_point_diff = Some (11 / 2), avg_point_diff_last_5 = Some 0\<rparr> \<and>
   away_team_metrics (calculate_team_performance_metrics example_season ! 3) =
     \<lparr>last_5 = None, last_5_games_result = Some (- 2), streak = Some (- 2),
        win_pct = Some (- 1), avg_point_diff = Some (- (11 / 2)),
        avg_point_diff_last_5 = Some 0\<rparr> \<and>
   prior_games (sort_games example_season) 3 ''BOS'' =
     filter (\<lambda>g'. season g' = 2023 \<and> plays ''BOS'' g' \<and> game_datetime g' < 30)
       (sort_games example_season)"
  using rollup_uses_prior_games_only [of 3 example_season] example_season_distinct
  by (simp add: Let_def sort_example prior_games_def plays_def entering_metrics_def
      performance_def is_win_def score_gt_def point_diff_def score_sub_def last_n_def
      streak_entering_def streak_step_def mean_def)
    (simp add: example_season_def)

text \<open>
  Claim C4. A team with no earlier game in the season enters the game with streak 0, no
  win_pct, and 0 for last_5_games_result, avg_point_diff and avg_point_diff_last_5. With
  earlier games, win_pct is the sum of their +1/-1 performances divided by their number.
  The statement is made for the home side and for the away side of row \<open>i\<close>.
\<close>

theorem first_game_and_win_pct:
  assumes "i < length df0"
  shows "let df = sort_games df0; g = df ! i;
             out = calculate_team_performance_metrics df0 ! i;
             h = home_team_metrics out; hp = prior_games df i (home_team g);
             a = away_team_metrics out; ap = prior_games df i (away_team g)
         in (hp = [] \<longrightarrow> streak h = Some 0 \<and> win_pct h = None \<and> last_5_games_result h = Some 0 \<and>
               avg_point_diff h = Some 0 \<and> avg_point_diff_last_5 h = Some 0) \<and>
            (hp \<noteq> [] \<longrightarrow> win_pct h =
               Some (real_of_int (sum_list (map (performance (home_team g)) hp)) / real (length hp))) \<and>
            (ap = [] \<longrightarrow> streak a = Some 0 \<and> win_pct a = None \<and> last_5_games_result a = Some 0 \<and>
               avg_point_diff a = Some 0 \<and> avg_point_diff_last_5 a = Some 0) \<and>
            (ap \<noteq> [] \<longrightarrow> win_pct a =
               Some (real_of_int (sum_list (map (performance (away_team g)) ap)) / real (length ap)))"
  using rollup_row [OF assms]
  by (simp add: Let_def entering_metrics_first entering_metrics_win_pct)

theorem first_game_and_win_pct_witness:
  "1 < length example_season \<and> 3 < length example_season \<and>
   prior_games (sort_games example_season) 1 ''BOS'' = [] \<and>
   prior_games (sort_games example_season) 1 ''NYK'' = [] \<and>
   prior_games (sort_games example_season) 3 ''BOS'' \<noteq> [] \<and>
   prior_games (sort_games example_season) 3 ''NYK'' \<noteq> [] \<and>
   streak (home_team_metrics (calculate_team_performance_metrics example_season ! 1)) = Some 0 \<and>
   win_pct (home_team_metrics (calculate_team_performance_metrics example_season ! 1)) = None \<and>
   last_5_games_result (away_team_metrics (calculate_team_performance_metrics example_season ! 1)) = Some 0 \<and>
   avg_point_diff (away_team_metrics (calculate_team_performance_metrics example_season ! 1)) = Some 0 \<and>
   avg_point_diff_last_5 (away_team_metrics (calculate_team_performance_metrics example_season ! 1)) = Some 0 \<and>
   win_pct (home_team_metrics (calculate_team_performance_metrics example_season ! 3)) = Some 1 \<and>
   win_pct (away_team_metrics (calculate_team_performance_metrics example_season ! 3)) = Some (- 1)"
  using first_game_and_win_pct [of 1 example_season] first_game_and_win_pct [of 3 example_season]
  by (simp add: Let_def sort_example prior_games_def plays_def
      performance_def is_win_def score_gt_def)
    (simp add: example_season_def)

text \<open>
  Claim C3. With fewer than five earlier games of the team in the season,
  avg_point_diff_last_5 is 0, whatever the point differences of these games were, while
  last_5_games_result is the sum of the performances of all of them: the mean needs a full
  window of five, the sum takes what there is.
\<close>

theorem window_policies:
  assumes "i < length df0"
  shows "let df = sort_games df0; g = df ! i;
             out = calculate_team_performance_metrics df0 ! i;
             h = home_team_metrics out; hp = prior_games df i (home_team g);
             a = away_team_metrics out; ap = prior_games df i (away_team g)
         in (length hp < 5 \<longrightarrow> avg_point_diff_last_5 h = Some 0 \<and>
               last_5_games_result h = Some (real_of_int (sum_list (map (performance (home_team g)) hp)))) \<and>
            (length ap < 5 \<longrightarrow> avg_point_diff_last_5 a = Some 0 \<and>
               last_5_games_result a = Some (real_of_int (sum_list (map (performance (away_team g)) ap))))"
  using rollup_row [OF assms]
  by (simp add: Let_def entering_metrics_short)

theorem window_policies_witness:
  "3 < length example_season \<and>
   length (prior_games (sort_games example_season) 3 ''BOS'') < 5 \<and>
   length (prior_games (sort_games example_season) 3 ''NYK'') < 5 \<and>
   avg_point_diff_last_5 (home_team_metrics (calculate_team_performance_metrics example_season ! 3)) = Some 0 \<and>
   last_5_games_result (home_team_metrics (calculate_team_performance_metrics example_season ! 3)) = Some 2 \<and>
   avg_point_diff_last_5 (away_team_metrics (calculate_team_performance_metrics example_season ! 3)) = Some 0 \<and>
   last_5_games_result (away_team_metrics (calculate_team_performance_metrics example_season ! 3)) = Some (- 2)"
  using window_policies [of 3 example_season]
  by (simp add: Let_def sort_example prior_games_def plays_def
      performance_def is_win_def score_gt_def)
    (simp add: example_season_def)

text \<open>
  Claim C10. In a game with equal scores neither side has won, and the performance of both
  is -1. Downstream the game counts as a loss: it moves a negative streak one further down
  and any other streak to -1, and it lowers the sum of performances, from which win_pct
  and last_5_games_result are taken, by one.
\<close>

theorem draw_is_loss_for_both:
  assumes "home_score g = away_score g"
  shows "\<not> is_win (home_team g) g \<and> \<not> is_win (away_team g) g \<and>
         performance (home_team g) g = - 1 \<and> performance (away_team g) g = - 1 \<and>
         (\<forall>team prior.
            streak_entering (map (performance team) (prior @ [g])) =
              (if streak_entering (map (performance team) prior) < 0
               then streak_entering (map (performance team) prior) - 1 else - 1) \<and>
            sum_list (map (performance team) (prior @ [g])) =
              sum_list (map (performance team) prior) - 1)"
proof -
  have "\<not> score_gt (home_score g) (away_score g)" "\<not> score_gt (away_score g) (home_score g)"
    using assms by (simp_all add: score_gt_def split: option.splits)
  then have loss: "\<not> is_win team g" "performance team g = - 1" for team
    by (simp_all add: is_win_def performance_def)
  have "streak_step S (- 1) = (if S < 0 then S - 1 else - 1)" for S :: int
    by (simp add: streak_step_def sgn_if)
  then show ?thesis
    using loss by (simp add: streak_entering_def)
qed

theorem draw_is_loss_for_both_witness:
  "home_score example_draw = away_score example_draw \<and>
   \<not> is_win ''BOS'' example_draw \<and> \<not> is_win ''NYK'' example_draw \<and>
   performance ''BOS'' example_draw = - 1 \<and> performance ''NYK'' example_draw = - 1 \<and>
   streak_entering (map (performance ''BOS'') (take 3 example_team_df @ [example_draw])) = - 1"
proof -
  have h: "home_score example_draw = away_score example_draw"
    by (simp add: example_draw_def)
  note d = draw_is_loss_for_both [OF h]
  from d have loss: "\<not> is_win ''BOS'' example_draw" "\<not> is_win ''NYK'' example_draw"
    "performance ''BOS'' example_draw = - 1" "performance ''NYK'' example_draw = - 1"
    by (simp_all add: example_draw_def)
  have three: "streak_entering (map (performance ''BOS'') (take 3 example_team_df)) = 3"
    by (simp add: example_team_df_def performance_def is_win_def score_gt_def
        streak_entering_def streak_step_def)
  from d have "streak_entering (map (performance ''BOS'') (take 3 example_team_df @ [example_draw])) =
      (if streak_entering (map (performance ''BOS'') (take 3 example_team_df)) < 0
       then streak_entering (map (performance ''BOS'') (take 3 example_team_df)) - 1 else - 1)"
    by blast
  then have "streak_entering (map (performance ''BOS'') (take 3 example_team_df @ [example_draw])) = - 1"
    by (simp only: three) simp
  with h loss show ?thesis
    by blast
qed

section \<open>Claims on the condensed probability and the day of season\<close>

lemma first_notna_simps:
  "first_notna [] = None"
  "first_notna (None # vs) = first_notna vs"
  "first_notna (Some x # vs) = Some x"
  by (simp_all add: first_notna_def)

lemma prob1_538_eq:
  "prob1_538 row = first_notna [raptor_prob1 row, carm_elo_prob1 row, elo_prob1 row]"
  by (cases "raptor_prob1 row"; cases "carm_elo_prob1 row"; cases "elo_prob1 row")
    (simp_all add: prob1_538_def notna_def first_notna_simps)

text \<open>
  Claim C7. For every row, \<open>538_prob1\<close> is the first value that is not missing among
  \<open>raptor_prob1\<close>, \<open>carm_elo_prob1\<close> and \<open>elo_prob1\<close>, in this order. With no raptor
  value, 0.62 and 0.55 it is 0.62; with all three missing it is missing.
\<close>

theorem prob1_538_first_notna:
  "(i < length df \<longrightarrow>
      snd (condense_538_features df ! i) =
        first_notna [raptor_prob1 (df ! i), carm_elo_prob1 (df ! i), elo_prob1 (df ! i)]) \<and>
   prob1_538 \<lparr>raptor_prob1 = None, carm_elo_prob1 = Some 0.62, elo_prob1 = Some 0.55\<rparr> = Some 0.62 \<and>
   prob1_538 \<lparr>raptor_prob1 = None, carm_elo_prob1 = None, elo_prob1 = None\<rparr> = None"
  by (simp add: condense_538_features_def prob1_538_eq first_notna_simps)

theorem prob1_538_first_notna_witness:
  "0 < length [example_ratings] \<and> snd (condense_538_features [example_ratings] ! 0) = Some 0.62"
  using prob1_538_first_notna [of 0 "[example_ratings]"]
  by (simp add: example_ratings_def first_notna_simps)

text \<open>
  Claim C9. The function returns one value for every row, and the value of a row depends
  on the \<open>game_datetime\<close> of that row only. When the calendar returns a dictionary with a
  start date that parses, the value is the number of whole days from the start date to the
  game. It is missing exactly when a step of the lookup fails: the calendar raises, the
  dictionary has no start date, or the start date does not parse.
\<close>

theorem day_of_season_total:
  "length (add_day_of_season cal df) = length df \<and>
   (i < length df \<longrightarrow>
      fst (add_day_of_season cal df ! i) = df ! i \<and>
      snd (add_day_of_season cal df ! i) = calculate_day_of_season cal (game_datetime (df ! i))) \<and>
   (find_season_information cal (strftime cal x) = Inr info \<and>
    info ''reg_season_start_date'' = Some s \<and> strptime cal s = Inr start_date \<longrightarrow>
      calculate_day_of_season cal x = Some ((x - start_date) div ns_per_day)) \<and>
   (day_of_season_try cal x = Inl e \<longrightarrow> calculate_day_of_season cal x = None) \<and>
   (calculate_day_of_season cal x = None \<longleftrightarrow>
      (\<exists>e. find_season_information cal (strftime cal x) = Inl e) \<or>
      (\<exists>info. find_season_information cal (strftime cal x) = Inr info \<and>
         (info ''reg_season_start_date'' = None \<or>
          (\<exists>s e. info ''reg_season_start_date'' = Some s \<and> strptime cal s = Inl e))))"
  by (auto simp add: add_day_of_season_def calculate_day_of_season_def day_of_season_try_def
      split: sum.splits option.splits)

theorem day_of_season_total_witness:
  "0 < length example_dates \<and>
   find_season_information example_calendar (strftime example_calendar (game_datetime (example_dates ! 0))) =
     Inr [''reg_season_start_date'' \<mapsto> ''2022-10-18''] \<and>
   strptime example_calendar ''2022-10-18'' = Inr (19283 * ns_per_day) \<and>
   day_of_season_try example_calendar (game_datetime (example_dates ! 1)) =
     Inl (KeyError ''reg_season_start_date'') \<and>
   map snd (add_day_of_season example_calendar example_dates) = [Some 75, None]"
proof -
  let ?x0 = "game_datetime (example_dates ! 0)" and ?x1 = "game_datetime (example_dates ! 1)"
  have f: "find_season_information example_calendar (strftime example_calendar ?x0) =
      Inr [''reg_season_start_date'' \<mapsto> ''2022-10-18'']"
    by (simp add: example_calendar_def example_dates_def ns_per_day_def)
  have p: "strptime example_calendar ''2022-10-18'' = Inr (19283 * ns_per_day)"
    by (simp add: example_calendar_def)
  have t: "day_of_season_try example_calendar ?x1 = Inl (KeyError ''reg_season_start_date'')"
    by (simp add: day_of_season_try_def example_calendar_def example_dates_def ns_per_day_def)
  have d: "(?x0 - 19283 * ns_per_day) div ns_per_day = 75"
    by (simp add: example_dates_def ns_per_day_def)
  note th = day_of_season_total [of example_calendar example_dates]
  have len: "length (add_day_of_season example_calendar example_dates) = 2"
    using th [of 0 0 Map.empty "''''" 0 "OtherError ''''"] by (simp add: example_dates_def)
  have r0: "snd (add_day_of_season example_calendar example_dates ! 0) = Some 75"
    using th [of 0 ?x0 "[''reg_season_start_date'' \<mapsto> ''2022-10-18'']" "''2022-10-18''"
        "19283 * ns_per_day" "OtherError ''''"] f p d
    by (simp add: example_dates_def)
  have r1: "snd (add_day_of_season example_calendar example_dates ! 1) = None"
    using th [of 1 ?x1 Map.empty "''''" 0 "KeyError ''reg_season_start_date''"] t
    by (simp add: example_dates_def)
  have "map snd (add_day_of_season example_calendar example_dates) = [Some 75, None]"
    using len r0 r1 by (auto simp add: list_eq_iff_nth_eq nth_Cons' less_Suc_eq numeral_2_eq_2)
  with f p t show ?thesis
    by (simp add: example_dates_def)
qed

section \<open>Properties of the normalisation\<close>







lemma safe_percentile_null: "j < length s \<Longrightarrow> s ! j = None \<Longrightarrow> safe_percentile s ! j = None"
  by (simp add: safe_percentile_def Let_def)







section \<open>Properties of the dispatcher\<close>

lemma getattr_Inl:
  "getattr_create_features cfg n = Inl e \<Longrightarrow> e = AttributeError (''_create_features_'' @ n)"
  by (auto simp add: getattr_create_features_def split: if_splits)

lemma map_fst_update:
  "n \<in> fst ` set al \<Longrightarrow> map fst (AList.update n v al) = map fst al"
  by (simp add: update_keys)

lemma feature_creation_loop_ok:
  assumes "set names \<subseteq> fst ` set ft"
    and "\<forall>n\<in>set names. \<forall>df meth. map_of ft n = Some df \<longrightarrow>
           getattr_create_features cfg n = Inr meth \<longrightarrow> (\<exists>df'. meth df = Inr df')"
    and "fst ` set ft \<subseteq> fst ` set updated"
  shows "\<exists>updated' printed'.
      feature_creation_loop cfg ft names (updated, printed) = Inr (updated', printed') \<and>
      map fst updated' = map fst updated \<and>
      printed' = printed @ map notice (filter (\<lambda>n. isl (getattr_create_features cfg n)) names) \<and>
      (\<forall>n. map_of updated' n =
         (if n \<in> set names \<and> \<not> isl (getattr_create_features cfg n)
          then method_result cfg ft n else map_of updated n))"
  using assms
proof (induction names arbitrary: updated printed)
  case Nil
  then show ?case by simp
next
  case (Cons name names)
  from Cons.prems(1) have sub: "set names \<subseteq> fst ` set ft" and key: "name \<in> fst ` set ft"
    by simp_all
  from Cons.prems(2) have ok: "\<forall>n\<in>set names. \<forall>df meth. map_of ft n = Some df \<longrightarrow>
           getattr_create_features cfg n = Inr meth \<longrightarrow> (\<exists>df'. meth df = Inr df')"
    by simp
  show ?case
  proof (cases "getattr_create_features cfg name")
    case (Inl e)
    then have e: "e = AttributeError (''_create_features_'' @ name)"
      by (rule getattr_Inl)
    from Cons.IH [OF sub ok Cons.prems(3), of "printed @ [notice name]"]
    obtain updated' printed' where r:
      "feature_creation_loop cfg ft names (updated, printed @ [notice name]) = Inr (updated', printed')"
      "map fst updated' = map fst updated"
      "printed' = (printed @ [notice name]) @ map notice (filter (\<lambda>n. isl (getattr_create_features cfg n)) names)"
      "\<forall>n. map_of updated' n =
         (if n \<in> set names \<and> \<not> isl (getattr_create_features cfg n)
          then method_result cfg ft n else map_of updated n)"
      by blast
    have "feature_creation_loop cfg ft (name # names) (updated, printed) = Inr (updated', printed')"
      using Inl e r(1) by simp
    moreover have "printed' = printed @ map notice (filter (\<lambda>n. isl (getattr_create_features cfg n)) (name # names))"
      using Inl r(3) by simp
    moreover have "\<forall>n. map_of updated' n =
         (if n \<in> set (name # names) \<and> \<not> isl (getattr_create_features cfg n)
          then method_result cfg ft n else map_of updated n)"
      using Inl r(4) by auto
    ultimately show ?thesis using r(2) by blast
  next
    case (Inr meth)
    from key obtain df where df: "map_of ft name = Some df"
      by (metis domD dom_map_of_conv_image_fst)
    with Cons.prems(2) Inr obtain df' where df': "meth df = Inr df'"
      by auto
    let ?u = "AList.update name df' updated"
    have res: "method_result cfg ft name = Some df'"
      by (simp add: method_result_def Inr df df')
    have keys: "map fst ?u = map fst updated"
      using key Cons.prems(3) by (intro map_fst_update) auto
    then have "fst ` set ft \<subseteq> fst ` set ?u"
      using Cons.prems(3) by (metis list.set_map)
    from Cons.IH [OF sub ok this, of printed]
    obtain updated' printed' where r:
      "feature_creation_loop cfg ft names (?u, printed) = Inr (updated', printed')"
      "map fst updated' = map fst ?u"
      "printed' = printed @ map notice (filter (\<lambda>n. isl (getattr_create_features cfg n)) names)"
      "\<forall>n. map_of updated' n =
         (if n \<in> set names \<and> \<not> isl (getattr_create_features cfg n)
          then method_result cfg ft n else map_of ?u n)"
      by blast
    have "feature_creation_loop cfg ft (name # names) (updated, printed) = Inr (updated', printed')"
      using Inr df df' r(1) by simp
    moreover have "map fst updated' = map fst updated"
      using r(2) keys by simp
    moreover have "printed' = printed @ map notice (filter (\<lambda>n. isl (getattr_create_features cfg n)) (name # names))"
      using Inr r(3) by simp
    moreover have "\<forall>n. map_of updated' n =
         (if n \<in> set (name # names) \<and> \<not> isl (getattr_create_features cfg n)
          then method_result cfg ft n else map_of updated n)"
      using r(4) Inr res by (auto simp add: update_conv')
    ultimately show ?thesis by blast
  qed
qed

lemma feature_creation_loop_error:
  assumes "feature_creation_loop cfg ft names st = Inl e" "set names \<subseteq> fst ` set ft"
  shows "\<exists>n df meth. n \<in> set names \<and> map_of ft n = Some df \<and>
           getattr_create_features cfg n = Inr meth \<and> meth df = Inl e"
  using assms
proof (induction names arbitrary: st)
  case Nil
  then show ?case by simp
next
  case (Cons name names)
  obtain updated printed where st: "st = (updated, printed)" by (cases st)
  from Cons.prems(2) have sub: "set names \<subseteq> fst ` set ft" and key: "name \<in> fst ` set ft"
    by simp_all
  from key obtain df where df: "map_of ft name = Some df"
    by (metis domD dom_map_of_conv_image_fst)
  show ?case
  proof (cases "getattr_create_features cfg name")
    case (Inl a)
    then have "a = AttributeError (''_create_features_'' @ name)"
      by (rule getattr_Inl)
    with Inl Cons.prems(1) have
      "feature_creation_loop cfg ft names (updated, printed @ [notice name]) = Inl e"
      by (simp add: st)
    from Cons.IH [OF this sub] show ?thesis by auto
  next
    case (Inr meth)
    show ?thesis
    proof (cases "meth df")
      case (Inl a)
      with Inr df Cons.prems(1) have "a = e" by (simp add: st)
      with Inl Inr df show ?thesis by auto
    next
      case Inr': (Inr df')
      with Inr df Cons.prems(1) have
        "feature_creation_loop cfg ft names (AList.update name df' updated, printed) = Inl e"
        by (simp add: st)
      from Cons.IH [OF this sub] show ?thesis by auto
    qed
  qed
qed

text \<open>The normalisation returns on a table that has the date column and the feature columns.\<close>

lemma add_zscore_ok:
  assumes "date_col \<in> dom df" "col \<in> dom df"
  shows "\<exists>df'. add_zscore df col date_col = Inr df' \<and> dom df \<subseteq> dom df'"
  using assms by (auto simp add: add_zscore_def)

lemma add_percentile_ok:
  assumes "date_col \<in> dom df" "col \<in> dom df"
  shows "\<exists>df'. add_percentile df col date_col = Inr df' \<and> dom df \<subseteq> dom df'"
  using assms by (auto simp add: add_percentile_def)

lemma zscore_and_percentiles_ok:
  "date_col \<in> dom df \<Longrightarrow> set cols \<subseteq> dom df \<Longrightarrow>
   \<exists>df'. zscore_and_percentiles df cols date_col = Inr df'"
proof (induction cols arbitrary: df)
  case Nil
  then show ?case by simp
next
  case (Cons col cols)
  from Cons.prems obtain df1 where 1: "add_zscore df col date_col = Inr df1" "dom df \<subseteq> dom df1"
    using add_zscore_ok [of date_col df col] by auto
  with Cons.prems obtain df2 where 2: "add_percentile df1 col date_col = Inr df2" "dom df1 \<subseteq> dom df2"
    using add_percentile_ok [of date_col df1 col] by auto
  have "date_col \<in> dom df2" "set cols \<subseteq> dom df2"
    using Cons.prems 1(2) 2(2) by (simp_all only: list.set insert_subset) blast+
  then have "\<exists>df'. zscore_and_percentiles df2 cols date_col = Inr df'"
    by (rule Cons.IH)
  with 1(1) 2(1) show ?case by simp
qed

text \<open>
  Claim C8, amended. If every registered method returns on the table of its name, the
  dispatcher returns, with the names of the input in their order; the notices printed are
  those of the names without a method, in order; and a table without a method is returned
  as it was given. Whenever the dispatcher raises, the exception is one that a
  registered method raised on its table: a missing method never makes it raise.
\<close>

theorem dispatcher_passes_unregistered_tables:
  "((\<forall>(n, df) \<in> set features_tables. \<forall>meth.
       getattr_create_features cfg n = Inr meth \<longrightarrow> (\<exists>df'. meth df = Inr df')) \<longrightarrow>
    (\<exists>updated printed.
       full_feature_creation cfg features_tables = Inr (updated, printed) \<and>
       map fst updated = map fst features_tables \<and>
       printed = map notice (filter (\<lambda>n. isl (getattr_create_features cfg n))
                   (map fst features_tables)) \<and>
       (\<forall>n df. map_of features_tables n = Some df \<and> isl (getattr_create_features cfg n) \<longrightarrow>
          map_of updated n = Some df \<and> notice n \<in> set printed))) \<and>
   (\<forall>e. full_feature_creation cfg features_tables = Inl e \<longrightarrow>
      (\<exists>n df meth. (n, df) \<in> set features_tables \<and>
         getattr_create_features cfg n = Inr meth \<and> meth df = Inl e))"
proof (intro conjI impI allI)
  assume ok: "\<forall>(n, df) \<in> set features_tables. \<forall>meth.
       getattr_create_features cfg n = Inr meth \<longrightarrow> (\<exists>df'. meth df = Inr df')"
  have ok': "\<forall>n\<in>set (map fst features_tables). \<forall>df meth. map_of features_tables n = Some df \<longrightarrow>
           getattr_create_features cfg n = Inr meth \<longrightarrow> (\<exists>df'. meth df = Inr df')"
    using ok by (auto dest!: map_of_SomeD)
  from feature_creation_loop_ok [of "map fst features_tables" features_tables cfg features_tables "[]", OF _ ok']
  obtain updated printed where r:
    "full_feature_creation cfg features_tables = Inr (updated, printed)"
    "map fst updated = map fst features_tables"
    "printed = map notice (filter (\<lambda>n. isl (getattr_create_features cfg n)) (map fst features_tables))"
    "\<forall>n. map_of updated n =
         (if n \<in> set (map fst features_tables) \<and> \<not> isl (getattr_create_features cfg n)
          then method_result cfg features_tables n else map_of features_tables n)"
    by (auto simp add: full_feature_creation_def)
  have "map_of updated n = Some df \<and> notice n \<in> set printed"
    if "map_of features_tables n = Some df \<and> isl (getattr_create_features cfg n)" for n df
  proof -
    from that have "n \<in> set (map fst features_tables)"
      by (metis domI dom_map_of_conv_image_fst list.set_map)
    with that r(3,4) show ?thesis by auto
  qed
  with r(1-3) show "\<exists>updated printed.
       full_feature_creation cfg features_tables = Inr (updated, printed) \<and>
       map fst updated = map fst features_tables \<and>
       printed = map notice (filter (\<lambda>n. isl (getattr_create_features cfg n))
                   (map fst features_tables)) \<and>
       (\<forall>n df. map_of features_tables n = Some df \<and> isl (getattr_create_features cfg n) \<longrightarrow>
          map_of updated n = Some df \<and> notice n \<in> set printed)"
    by blast
next
  fix e
  assume "full_feature_creation cfg features_tables = Inl e"
  then have "\<exists>n df meth. n \<in> set (map fst features_tables) \<and> map_of features_tables n = Some df \<and>
           getattr_create_features cfg n = Inr meth \<and> meth df = Inl e"
    unfolding full_feature_creation_def by (rule feature_creation_loop_error) simp
  then show "\<exists>n df meth. (n, df) \<in> set features_tables \<and>
         getattr_create_features cfg n = Inr meth \<and> meth df = Inl e"
    by (auto dest: map_of_SomeD)
qed

theorem dispatcher_passes_unregistered_tables_witness:
  "(\<exists>df'. create_features_nbastats example_config ''team_nbastats_general_traditional''
            example_traditional = Inr df') \<and>
   (\<exists>updated printed.
      full_feature_creation example_config example_tables = Inr (updated, printed) \<and>
      map fst updated =
        [''team_nbastats_general_traditional'', ''roster'', ''team_fivethirtyeight_games''] \<and>
      printed = [''No feature creation method for table: roster''] \<and>
      map_of updated ''roster'' = Some example_roster)"
proof -
  have m: "\<exists>df'. create_features_nbastats example_config ''team_nbastats_general_traditional''
            example_traditional = Inr df'"
  proof -
    have "\<exists>df'. zscore_and_percentiles example_traditional [''pts''] ''to_date'' = Inr df'"
      by (rule zscore_and_percentiles_ok) (simp_all add: example_traditional_def)
    then show ?thesis
      by (simp add: create_features_nbastats_def example_config_def del: zscore_and_percentiles.simps)
  qed
  then have "\<forall>(n, df) \<in> set example_tables. \<forall>meth.
       getattr_create_features example_config n = Inr meth \<longrightarrow> (\<exists>df'. meth df = Inr df')"
    by (auto simp add: example_tables_def getattr_create_features_def)
  with dispatcher_passes_unregistered_tables [of example_tables example_config]
  obtain updated printed where r:
    "full_feature_creation example_config example_tables = Inr (updated, printed)"
    "map fst updated = map fst example_tables"
    "printed = map notice (filter (\<lambda>n. isl (getattr_create_features example_config n))
                   (map fst example_tables))"
    "\<forall>n df. map_of example_tables n = Some df \<and> isl (getattr_create_features example_config n) \<longrightarrow>
          map_of updated n = Some df \<and> notice n \<in> set printed"
    by blast
  have "map_of example_tables ''roster'' = Some example_roster \<and>
      isl (getattr_create_features example_config ''roster'')"
    by (simp add: example_tables_def getattr_create_features_def)
  with r(4) have "map_of updated ''roster'' = Some example_roster" by blast
  moreover have "printed = [''No feature creation method for table: roster'']"
    by (simp add: r(3) example_tables_def getattr_create_features_def notice_def)
  moreover have "map fst updated =
      [''team_nbastats_general_traditional'', ''roster'', ''team_fivethirtyeight_games'']"
    by (simp add: r(2) example_tables_def)
  ultimately show ?thesis using m r(1) by simp
qed

text \<open>
  Claim C8 as stated fails: a registered method that raises ends the dispatcher, which then
  returns no table at all. Here the table registered as
  \<open>team_nbastats_general_traditional\<close> has no date column.
\<close>

theorem dispatcher_aborts_counterexample:
  "full_feature_creation example_config
     [(''roster'', example_roster), (''team_nbastats_general_traditional'', example_roster)] =
   Inl (KeyError ''to_date'')"
  by (simp add: full_feature_creation_def getattr_create_features_def create_features_nbastats_def
      example_config_def example_roster_def add_zscore_def)

section \<open>Properties of the days since the last game\<close>

























end
